theory Spec2Isabelle
  imports Main "HOL-Library.AList"
begin

unbundle bit_operations_syntax

section \<open>Python values, dictionaries and errors\<close>

text \<open>
  The values that flow through \<^verbatim>\<open>praw/models/reddit/live.py\<close>: \<^verbatim>\<open>None\<close>, strings,
  booleans and \<^verbatim>\<open>Redditor\<close> references.

  Modelled from the spec: the class \<^verbatim>\<open>Redditor\<close> (\<^verbatim>\<open>praw/models/reddit/redditor.py\<close>) is
  not part of the sources at hand. The spec describes \<^verbatim>\<open>Redditor(reddit, name=value)\<close> as
  a reference object that wraps the raw value and whose displayed name is that value;
  \<open>PRedditor r v\<close> is this reference, for the \<^verbatim>\<open>Reddit\<close> instance \<open>r\<close>.
\<close>

datatype pyval = PNone | PStr string | PBool bool | PRedditor nat pyval

datatype error =
    TypeError
  | AttributeError
  | RecursionError
  | APIException
  | RequestException
  | BadReference  \<comment> \<open>an address that does not hold an object of the expected class\<close>

text \<open>A Python \<^verbatim>\<open>dict\<close> with string keys, in insertion order.\<close>

type_synonym payload = "(string \<times> pyval) list"

text \<open>\<^verbatim>\<open>d.update(e)\<close>: a key already there keeps its place, a new key goes to the end.\<close>

definition dict_update :: "payload \<Rightarrow> payload \<Rightarrow> payload" where
  "dict_update d e = foldl (\<lambda>acc (k, v). AList.update k v acc) d e"

text \<open>\<^verbatim>\<open>bool(x)\<close> for the values above and for an optional \<^verbatim>\<open>dict\<close>.\<close>

fun py_bool :: "pyval \<Rightarrow> bool" where
  "py_bool PNone = False"
| "py_bool (PStr s) = (s \<noteq> [])"
| "py_bool (PBool b) = b"
| "py_bool (PRedditor r v) = True"

fun py_bool_dict :: "payload option \<Rightarrow> bool" where
  "py_bool_dict None = False"
| "py_bool_dict (Some d) = (d \<noteq> [])"

text \<open>\<^verbatim>\<open>str(x)\<close>; a \<^verbatim>\<open>Redditor\<close> displays its name.\<close>

fun py_str :: "pyval \<Rightarrow> string" where
  "py_str PNone = ''None''"
| "py_str (PStr s) = s"
| "py_str (PBool b) = (if b then ''True'' else ''False'')"
| "py_str (PRedditor r v) = py_str v"

text \<open>\<^verbatim>\<open>sep.join(xs)\<close>.\<close>

fun join :: "string \<Rightarrow> string list \<Rightarrow> string" where
  "join sep [] = []"
| "join sep [x] = x"
| "join sep (x # y # ys) = x @ sep @ join sep (y # ys)"

section \<open>The transport collaborator\<close>

text \<open>
  \<^verbatim>\<open>API_PATH\<close> (\<^verbatim>\<open>praw/const.py\<close>) is not part of the sources at hand. A path
  \<^verbatim>\<open>API_PATH[key].format(id=i)\<close> is represented by the pair of the template's key and the
  identifier substituted into it.
\<close>

type_synonym path = "string \<times> string"

definition API_PATH_format :: "string \<Rightarrow> pyval \<Rightarrow> path" where
  "API_PATH_format key i = (key, py_str i)"

text \<open>
  A request names the \<^verbatim>\<open>Reddit\<close> instance it goes through. \<open>GET r p after\<close> is
  \<^verbatim>\<open>r.get(p)\<close>, with the continuation token of a listing request when there is one;
  \<open>POST r p data\<close> is \<^verbatim>\<open>r.post(p, data=data)\<close>.
\<close>

datatype request =
    GET nat path "string option"
  | POST nat path "payload option"

text \<open>
  The server behind the \<^verbatim>\<open>Reddit\<close> instances: what it answers to a request, given the
  requests made so far. An answer is a decoded payload, a page of a listing (its children
  and the continuation token), or for a post no error.
\<close>

record transport =
  get_object :: "request list \<Rightarrow> request \<Rightarrow> error + payload"
  get_listing :: "request list \<Rightarrow> request \<Rightarrow> error + (payload list \<times> string option)"
  post_result :: "request list \<Rightarrow> request \<Rightarrow> error option"

section \<open>Objects and the store\<close>

type_synonym addr = nat

text \<open>
  The attributes every \<^verbatim>\<open>RedditBase\<close> object has: \<^verbatim>\<open>_reddit\<close>, the public attributes of
  \<^verbatim>\<open>__dict__\<close>, and \<^verbatim>\<open>_fetched\<close>. The subclasses add their private attributes:
  \<^verbatim>\<open>_contrib\<close> and \<^verbatim>\<open>_contributor\<close> of a \<^verbatim>\<open>LiveThread\<close> (\<open>None\<close> is Python's
  \<^verbatim>\<open>None\<close>); \<^verbatim>\<open>_thread\<close> and \<^verbatim>\<open>_contrib\<close> of a \<^verbatim>\<open>LiveUpdate\<close>, where the outer
  \<open>None\<close> says that the attribute has not been set.
\<close>

record RedditBase =
  r_reddit :: nat
  r_dict :: payload
  r_fetched :: bool

record LiveThread = RedditBase +
  t_contrib :: "addr option"
  t_contributor :: "addr option"

record LiveUpdate = RedditBase +
  u_thread :: "addr option"
  u_contrib :: "addr option option"

text \<open>
  The helper objects hold the back-reference to their owner and nothing else
  (\<^verbatim>\<open>self.thread = thread\<close>, \<^verbatim>\<open>self.update = update\<close>).
\<close>

datatype obj =
    OThread LiveThread
  | OUpdate LiveUpdate
  | OLiveThreadContribution addr
  | OLiveContributorRelationship addr
  | OLiveUpdateContribution addr

record world =
  heap :: "obj list"
  net :: "request list"

definition alloc :: "obj \<Rightarrow> world \<Rightarrow> addr \<times> world" where
  "alloc ob w = (length (heap w), w\<lparr>heap := heap w @ [ob]\<rparr>)"

definition heap_put :: "addr \<Rightarrow> obj \<Rightarrow> world \<Rightarrow> world" where
  "heap_put a ob w = w\<lparr>heap := (heap w)[a := ob]\<rparr>"

definition obj_at :: "world \<Rightarrow> addr \<Rightarrow> obj option" where
  "obj_at w a = (if a < length (heap w) then Some (heap w ! a) else None)"

definition thread_at :: "world \<Rightarrow> addr \<Rightarrow> LiveThread option" where
  "thread_at w a = (case obj_at w a of Some (OThread t) \<Rightarrow> Some t | _ \<Rightarrow> None)"

definition update_at :: "world \<Rightarrow> addr \<Rightarrow> LiveUpdate option" where
  "update_at w a = (case obj_at w a of Some (OUpdate u) \<Rightarrow> Some u | _ \<Rightarrow> None)"

definition send :: "request \<Rightarrow> world \<Rightarrow> world" where
  "send req w = w\<lparr>net := net w @ [req]\<rparr>"

section \<open>RedditBase\<close>

text \<open>
  Modelled from the spec: \<^verbatim>\<open>RedditBase.__init__\<close> (\<^verbatim>\<open>praw/models/reddit/base.py\<close>) is not
  part of the sources at hand. A resource is built full, its attributes populated from
  the decoded payload through the attribute-set path of its class, or as a stub; only a
  stub resolves its attributes by a fetch.
\<close>

definition RedditBase_init ::
  "('a RedditBase_scheme \<Rightarrow> string \<Rightarrow> pyval \<Rightarrow> 'a RedditBase_scheme) \<Rightarrow>
   nat \<Rightarrow> payload option \<Rightarrow> 'a RedditBase_scheme \<Rightarrow> 'a RedditBase_scheme" where
  "RedditBase_init setattr reddit data self =
     (let self = self\<lparr>r_reddit := reddit, r_dict := [], r_fetched := False\<rparr>
      in case data of
           None \<Rightarrow> self
         | Some d \<Rightarrow>
             (if d = [] then self
              else (foldl (\<lambda>s (attribute, v). setattr s attribute v) self d)
                     \<lparr>r_fetched := True\<rparr>))"

text \<open>\<^verbatim>\<open>object.__setattr__\<close> on a public attribute.\<close>

definition object_setattr :: "'a RedditBase_scheme \<Rightarrow> string \<Rightarrow> pyval \<Rightarrow> 'a RedditBase_scheme" where
  "object_setattr self attribute v = self\<lparr>r_dict := AList.update attribute v (r_dict self)\<rparr>"

text \<open>
  Modelled from the spec: \<^verbatim>\<open>RedditBase.__str__\<close> is not part of the sources at hand.
  \<^verbatim>\<open>str(self)\<close> is the designated string field (\<^verbatim>\<open>STR_FIELD = 'id'\<close>). Where the field is
  not populated the string form needs the resolution path, which needs the identifier
  itself, so there is no string form.
\<close>

definition RedditBase_str :: "'a RedditBase_scheme \<Rightarrow> error + string" where
  "RedditBase_str self =
     (case map_of (r_dict self) ''id'' of
        Some (PStr s) \<Rightarrow> Inr s
      | Some _ \<Rightarrow> Inl TypeError
      | None \<Rightarrow> Inl (if r_fetched self then AttributeError else RecursionError))"

text \<open>
  Modelled from the spec: \<^verbatim>\<open>RedditBase._reset_attributes\<close> is not part of the sources at
  hand. It removes the named attributes from the populated set and demotes the object
  towards a stub, so that the next access fetches again.
\<close>

definition reset_attributes :: "string list \<Rightarrow> 'a RedditBase_scheme \<Rightarrow> 'a RedditBase_scheme" where
  "reset_attributes attributes self =
     self\<lparr>r_dict := filter (\<lambda>(k, v). k \<notin> set attributes) (r_dict self), r_fetched := False\<rparr>"

text \<open>
  Modelled from the spec: \<^verbatim>\<open>RedditBase.__getattr__\<close> and \<^verbatim>\<open>RedditBase._fetch\<close> are not
  part of the sources at hand. An attribute that is present is returned. An attribute
  that is absent from a full object is not found, with no fetch. On a stub, the access
  makes one \<^verbatim>\<open>get\<close> of the info path of the object's kind; a failure propagates and
  leaves the object as it was; otherwise the fields of the payload overwrite the
  object's, the object is full, and the attribute is looked up again. The function is
  shared by the kinds: \<open>at\<close> reads an object of the kind from the store, \<open>wrap\<close> makes
  it an object of the store, \<open>info_path\<close> is the kind's \<^verbatim>\<open>_info_path\<close>.
\<close>

definition RedditBase_getattr ::
  "transport \<Rightarrow> (world \<Rightarrow> addr \<Rightarrow> 'a RedditBase_scheme option) \<Rightarrow>
   ('a RedditBase_scheme \<Rightarrow> obj) \<Rightarrow> ('a RedditBase_scheme \<Rightarrow> error + path) \<Rightarrow>
   addr \<Rightarrow> string \<Rightarrow> world \<Rightarrow> (error + pyval) \<times> world" where
  "RedditBase_getattr T at wrap info_path self attribute w =
     (case at w self of
        None \<Rightarrow> (Inl BadReference, w)
      | Some ob \<Rightarrow>
          (case map_of (r_dict ob) attribute of
             Some v \<Rightarrow> (Inr v, w)
           | None \<Rightarrow>
               if r_fetched ob then (Inl AttributeError, w)
               else
                 (case info_path ob of
                    Inl e \<Rightarrow> (Inl e, w)
                  | Inr p \<Rightarrow>
                      (let req = GET (r_reddit ob) p None;
                           w1 = send req w
                       in case get_object T (net w) req of
                            Inl e \<Rightarrow> (Inl e, w1)
                          | Inr other \<Rightarrow>
                              (let ob' = ob\<lparr>r_dict := dict_update (r_dict ob) other,
                                            r_fetched := True\<rparr>;
                                   w2 = heap_put self (wrap ob') w1
                               in case map_of (r_dict ob') attribute of
                                    Some v \<Rightarrow> (Inr v, w2)
                                  | None \<Rightarrow> (Inl AttributeError, w2))))))"

section \<open>LiveThread\<close>

text \<open>
  \<^verbatim>\<open>LiveThread._info_path\<close>: \<^verbatim>\<open>API_PATH['liveabout'].format(id=self.id)\<close>. It is
  called on a stub only. Where the stub has no id, reading \<^verbatim>\<open>self.id\<close> asks for the
  info path again, without end: Python stops that with \<^verbatim>\<open>RecursionError\<close>.
\<close>

definition LiveThread_info_path :: "LiveThread \<Rightarrow> error + path" where
  "LiveThread_info_path self =
     (case map_of (r_dict self) ''id'' of
        None \<Rightarrow> Inl RecursionError
      | Some i \<Rightarrow> Inr (API_PATH_format ''liveabout'' i))"

definition LiveThread_getattr ::
  "transport \<Rightarrow> addr \<Rightarrow> string \<Rightarrow> world \<Rightarrow> (error + pyval) \<times> world" where
  "LiveThread_getattr T = RedditBase_getattr T thread_at OThread LiveThread_info_path"

text \<open>
  \<^verbatim>\<open>LiveThread.__init__(self, reddit, id=None, _data=None)\<close>. The object is stored only
  when the constructor returns.
\<close>

definition LiveThread_init ::
  "nat \<Rightarrow> pyval \<Rightarrow> payload option \<Rightarrow> world \<Rightarrow> (error + addr) \<times> world" where
  "LiveThread_init reddit ident data w =
     (if py_bool ident = py_bool_dict data then (Inl TypeError, w)
      else
        (let self = RedditBase_init object_setattr reddit data
                      \<lparr>r_reddit = reddit, r_dict = [], r_fetched = False,
                       t_contrib = None, t_contributor = None\<rparr>;
             self = (if py_bool ident then object_setattr self ''id'' ident else self);
             self = self\<lparr>t_contrib := None\<rparr>;
             self = self\<lparr>t_contributor := None\<rparr>;
             (a, w1) = alloc (OThread self) w
         in (Inr a, w1)))"

text \<open>The properties \<^verbatim>\<open>contrib\<close> and \<^verbatim>\<open>contributor\<close>.\<close>

definition LiveThread_contrib :: "addr \<Rightarrow> world \<Rightarrow> (error + addr) \<times> world" where
  "LiveThread_contrib self w =
     (case thread_at w self of
        None \<Rightarrow> (Inl BadReference, w)
      | Some t \<Rightarrow>
          (case t_contrib t of
             None \<Rightarrow>
               (let (c, w1) = alloc (OLiveThreadContribution self) w;
                    w2 = heap_put self (OThread (t\<lparr>t_contrib := Some c\<rparr>)) w1
                in (Inr c, w2))
           | Some c \<Rightarrow> (Inr c, w)))"

definition LiveThread_contributor :: "addr \<Rightarrow> world \<Rightarrow> (error + addr) \<times> world" where
  "LiveThread_contributor self w =
     (case thread_at w self of
        None \<Rightarrow> (Inl BadReference, w)
      | Some t \<Rightarrow>
          (case t_contributor t of
             None \<Rightarrow>
               (let (c, w1) = alloc (OLiveContributorRelationship self) w;
                    w2 = heap_put self (OThread (t\<lparr>t_contributor := Some c\<rparr>)) w1
                in (Inr c, w2))
           | Some c \<Rightarrow> (Inr c, w)))"

text \<open>
  The helpers of the thread at \<open>self\<close> are kept from one state of the store to another:
  a slot that holds a helper in the first state holds the same helper in the second.
\<close>

definition helpers_kept :: "addr \<Rightarrow> world \<Rightarrow> world \<Rightarrow> bool" where
  "helpers_kept self w w' =
     (case thread_at w self of
        None \<Rightarrow> True
      | Some t \<Rightarrow>
          (case thread_at w' self of
             None \<Rightarrow> False
           | Some t' \<Rightarrow>
               (t_contrib t = None \<or> t_contrib t' = t_contrib t) \<and>
               (t_contributor t = None \<or> t_contributor t' = t_contributor t)))"

text \<open>
  \<^verbatim>\<open>LiveThread.__eq__\<close> and \<^verbatim>\<open>LiveThread.__hash__\<close>. The other operand is a string, an
  object of the store, or anything else. Python's builtin \<^verbatim>\<open>hash\<close> on strings is a
  parameter.
\<close>

datatype operand = OpStr string | OpObj obj | OpOther

definition LiveThread_eq :: "LiveThread \<Rightarrow> operand \<Rightarrow> error + bool" where
  "LiveThread_eq self other =
     (case other of
        OpStr s \<Rightarrow>
          (case RedditBase_str self of Inl e \<Rightarrow> Inl e | Inr me \<Rightarrow> Inr (s = me))
      | OpObj (OThread t) \<Rightarrow>
          (case RedditBase_str self of
             Inl e \<Rightarrow> Inl e
           | Inr me \<Rightarrow>
               (case RedditBase_str t of Inl e \<Rightarrow> Inl e | Inr you \<Rightarrow> Inr (me = you)))
      | _ \<Rightarrow> Inr False)"

definition LiveThread_hash :: "(string \<Rightarrow> int) \<Rightarrow> LiveThread \<Rightarrow> error + int" where
  "LiveThread_hash hash self =
     (case RedditBase_str self of
        Inl e \<Rightarrow> Inl e
      | Inr me \<Rightarrow> Inr (hash ''LiveThread'' XOR hash me))"

text \<open>
  \<^verbatim>\<open>LiveThread(reddit, X)\<close> as a value: the object that the constructor call leaves in
  the store, when it returns.
\<close>

definition Thread :: "nat \<Rightarrow> string \<Rightarrow> world \<Rightarrow> LiveThread option" where
  "Thread reddit X w =
     (case LiveThread_init reddit (PStr X) None w of
        (Inr a, w') \<Rightarrow> thread_at w' a
      | (Inl e, w') \<Rightarrow> None)"

section \<open>LiveUpdate\<close>

text \<open>\<^verbatim>\<open>LiveUpdate.__setattr__\<close>: the author is objectified on every assignment.\<close>

definition LiveUpdate_setattr :: "LiveUpdate \<Rightarrow> string \<Rightarrow> pyval \<Rightarrow> LiveUpdate" where
  "LiveUpdate_setattr self attribute v =
     (let v = (if attribute = ''author'' then PRedditor (r_reddit self) v else v)
      in object_setattr self attribute v)"

text \<open>
  The invariant of the attribute-set path: an author that is stored is a \<^verbatim>\<open>Redditor\<close>
  reference.
\<close>

definition author_objectified :: "LiveUpdate \<Rightarrow> bool" where
  "author_objectified u =
     (case map_of (r_dict u) ''author'' of
        None \<Rightarrow> True
      | Some (PRedditor r v) \<Rightarrow> True
      | Some _ \<Rightarrow> False)"

text \<open>
  \<^verbatim>\<open>LiveUpdate.__init__(self, reddit, thread_id=None, update_id=None, _data=None)\<close>.
\<close>

definition LiveUpdate_init ::
  "nat \<Rightarrow> pyval \<Rightarrow> pyval \<Rightarrow> payload option \<Rightarrow> world \<Rightarrow> (error + addr) \<times> world" where
  "LiveUpdate_init reddit thread_id update_id data w =
     (let blank = \<lparr>r_reddit = reddit, r_dict = [], r_fetched = False,
                   u_thread = None, u_contrib = None\<rparr>
      in if data \<noteq> None then
           (let self = RedditBase_init LiveUpdate_setattr reddit data blank;
                self = self\<lparr>r_fetched := True\<rparr>;
                (a, w1) = alloc (OUpdate self) w
            in (Inr a, w1))
         else if py_bool thread_id \<and> py_bool update_id then
           (let self = RedditBase_init LiveUpdate_setattr reddit None blank
            in case LiveThread_init (r_reddit self) thread_id None w of
                 (Inl e, w1) \<Rightarrow> (Inl e, w1)
               | (Inr t, w1) \<Rightarrow>
                   (let self = self\<lparr>u_thread := Some t\<rparr>;
                        self = LiveUpdate_setattr self ''id'' update_id;
                        self = self\<lparr>r_fetched := True\<rparr>;
                        self = self\<lparr>u_contrib := Some None\<rparr>;
                        (a, w2) = alloc (OUpdate self) w1
                    in (Inr a, w2)))
         else (Inl TypeError, w))"

text \<open>
  Modelled from the spec: the source gives \<^verbatim>\<open>LiveUpdate\<close> no \<^verbatim>\<open>_info_path\<close> of its own,
  and \<^verbatim>\<open>RedditBase\<close> is not part of the sources at hand. The spec has every kind resolve
  an absent attribute of a stub by one fetch of the kind's info path, built from the id;
  the path of an update is represented by the key \<open>info\<close> and the id.
\<close>

definition LiveUpdate_info_path :: "LiveUpdate \<Rightarrow> error + path" where
  "LiveUpdate_info_path self =
     (case map_of (r_dict self) ''id'' of
        None \<Rightarrow> Inl RecursionError
      | Some i \<Rightarrow> Inr (API_PATH_format ''info'' i))"

text \<open>
  The lookup of an attribute in the object itself, with \<^verbatim>\<open>RedditBase.__getattr__\<close> for an
  attribute that is absent.
\<close>

definition LiveUpdate_resolve ::
  "transport \<Rightarrow> addr \<Rightarrow> string \<Rightarrow> world \<Rightarrow> (error + pyval) \<times> world" where
  "LiveUpdate_resolve T = RedditBase_getattr T update_at OUpdate LiveUpdate_info_path"

text \<open>What an attribute access returns: a value, or a reference to an object of the store.\<close>

datatype attr = Value pyval | Object addr

text \<open>
  The property \<^verbatim>\<open>thread\<close> returns \<^verbatim>\<open>self._thread\<close>; where \<^verbatim>\<open>_thread\<close> was never set,
  the read is the read of an absent attribute.
\<close>

definition LiveUpdate_thread :: "transport \<Rightarrow> addr \<Rightarrow> world \<Rightarrow> (error + attr) \<times> world" where
  "LiveUpdate_thread T self w =
     (case update_at w self of
        None \<Rightarrow> (Inl BadReference, w)
      | Some u \<Rightarrow>
          (case u_thread u of
             Some t \<Rightarrow> (Inr (Object t), w)
           | None \<Rightarrow>
               (case LiveUpdate_resolve T self ''_thread'' w of
                  (Inl e, w1) \<Rightarrow> (Inl e, w1)
                | (Inr v, w1) \<Rightarrow> (Inr (Value v), w1))))"

text \<open>
  The property \<^verbatim>\<open>contrib\<close>: where \<^verbatim>\<open>self._contrib\<close> is \<^verbatim>\<open>None\<close>, it becomes a new
  \<^verbatim>\<open>LiveUpdateContribution(self)\<close>; \<^verbatim>\<open>self._contrib\<close> is returned.
\<close>

definition LiveUpdate_new_contrib :: "addr \<Rightarrow> world \<Rightarrow> (error + attr) \<times> world" where
  "LiveUpdate_new_contrib self w =
     (case update_at w self of
        None \<Rightarrow> (Inl BadReference, w)
      | Some u \<Rightarrow>
          (let (c, w1) = alloc (OLiveUpdateContribution self) w;
               w2 = heap_put self (OUpdate (u\<lparr>u_contrib := Some (Some c)\<rparr>)) w1
           in (Inr (Object c), w2)))"

definition LiveUpdate_contrib :: "transport \<Rightarrow> addr \<Rightarrow> world \<Rightarrow> (error + attr) \<times> world" where
  "LiveUpdate_contrib T self w =
     (case update_at w self of
        None \<Rightarrow> (Inl BadReference, w)
      | Some u \<Rightarrow>
          (case u_contrib u of
             Some (Some c) \<Rightarrow> (Inr (Object c), w)
           | Some None \<Rightarrow> LiveUpdate_new_contrib self w
           | None \<Rightarrow>
               (case LiveUpdate_resolve T self ''_contrib'' w of
                  (Inl e, w1) \<Rightarrow> (Inl e, w1)
                | (Inr v, w1) \<Rightarrow>
                    if v = PNone then LiveUpdate_new_contrib self w1
                    else (Inr (Value v), w1))))"

text \<open>
  \<^verbatim>\<open>getattr(update, attribute)\<close>: the properties of the class come before the
  attributes of the object.
\<close>

definition LiveUpdate_getattr ::
  "transport \<Rightarrow> addr \<Rightarrow> string \<Rightarrow> world \<Rightarrow> (error + attr) \<times> world" where
  "LiveUpdate_getattr T self attribute w =
     (if attribute = ''thread'' then LiveUpdate_thread T self w
      else if attribute = ''contrib'' then LiveUpdate_contrib T self w
      else
        (case LiveUpdate_resolve T self attribute w of
           (Inl e, w1) \<Rightarrow> (Inl e, w1)
         | (Inr v, w1) \<Rightarrow> (Inr (Value v), w1)))"

text \<open>\<^verbatim>\<open>LiveThread.__getitem__\<close>: \<^verbatim>\<open>LiveUpdate(self._reddit, self.id, update_id)\<close>.\<close>

definition LiveThread_getitem ::
  "transport \<Rightarrow> addr \<Rightarrow> pyval \<Rightarrow> world \<Rightarrow> (error + addr) \<times> world" where
  "LiveThread_getitem T self update_id w =
     (case thread_at w self of
        None \<Rightarrow> (Inl BadReference, w)
      | Some t \<Rightarrow>
          (case LiveThread_getattr T self ''id'' w of
             (Inl e, w1) \<Rightarrow> (Inl e, w1)
           | (Inr i, w1) \<Rightarrow> LiveUpdate_init (r_reddit t) i update_id None w1))"

text \<open>
  Modelled from the spec: \<^verbatim>\<open>ListingGenerator\<close> (\<^verbatim>\<open>praw/models/listing/generator.py\<close>)
  is not part of the sources at hand. It asks the listing endpoint for the next batch of
  raw items plus a continuation signal, only once the items of the current page are
  consumed, and hands the items out one by one, in the server's order, decoded into
  resource objects; \<open>limit\<close> caps the number of items, \<open>None\<close> exhausts all pages.
  \<open>ListingGenerator_next_batch\<close> is one page request, \<open>ListingGenerator_decode\<close> the
  decoding of one raw item of the updates listing, through \<^verbatim>\<open>LiveUpdate.__init__\<close>.
\<close>

definition ListingGenerator_next_batch ::
  "transport \<Rightarrow> nat \<Rightarrow> path \<Rightarrow> string option \<Rightarrow> world \<Rightarrow>
   (error + (payload list \<times> string option)) \<times> world" where
  "ListingGenerator_next_batch T reddit url after w =
     (let req = GET reddit url after
      in (get_listing T (net w) req, send req w))"

definition ListingGenerator_decode :: "nat \<Rightarrow> payload \<Rightarrow> world \<Rightarrow> (error + addr) \<times> world" where
  "ListingGenerator_decode reddit item w = LiveUpdate_init reddit PNone PNone (Some item) w"

text \<open>
  \<^verbatim>\<open>LiveThread.updates\<close>, consumed to its end. The body of its loop:
  \<^verbatim>\<open>update._thread = self; yield update\<close>.
\<close>

definition stamp :: "addr \<Rightarrow> addr \<Rightarrow> world \<Rightarrow> world" where
  "stamp self update w =
     (case update_at w update of
        None \<Rightarrow> w
      | Some u \<Rightarrow> heap_put update (OUpdate (u\<lparr>u_thread := Some self\<rparr>)) w)"

text \<open>
  What the caller receives at a \<^verbatim>\<open>yield\<close>: the update, and the store as it is at that
  moment.
\<close>

type_synonym yielded = "addr \<times> world"

fun yield_batch ::
  "addr \<Rightarrow> nat \<Rightarrow> payload list \<Rightarrow> world \<Rightarrow> (yielded list \<times> error option) \<times> world" where
  "yield_batch self reddit [] w = (([], None), w)"
| "yield_batch self reddit (item # items) w =
     (case ListingGenerator_decode reddit item w of
        (Inl e, w1) \<Rightarrow> (([], Some e), w1)
      | (Inr update, w1) \<Rightarrow>
          (let w2 = stamp self update w1
           in case yield_batch self reddit items w2 of
                ((rest, err), w3) \<Rightarrow> (((update, w2) # rest, err), w3)))"

text \<open>
  The loop over the pages. The fuel bounds the number of page requests: a server that
  never ends its listing keeps the generator running, and the result is \<open>None\<close>. The
  result otherwise is the list of what was yielded, and the error that ended the
  iteration if one did.
\<close>

fun updates_pages ::
  "transport \<Rightarrow> nat \<Rightarrow> addr \<Rightarrow> nat \<Rightarrow> path \<Rightarrow> string option \<Rightarrow> nat option \<Rightarrow> world \<Rightarrow>
   ((yielded list \<times> error option) \<times> world) option" where
  "updates_pages T 0 self reddit url after limit w = None"
| "updates_pages T (Suc fuel) self reddit url after limit w =
     (if limit = Some 0 then Some (([], None), w)
      else
        (case ListingGenerator_next_batch T reddit url after w of
           (Inl e, w1) \<Rightarrow> Some (([], Some e), w1)
         | (Inr (children, after'), w1) \<Rightarrow>
             (let batch = (case limit of None \<Rightarrow> children | Some k \<Rightarrow> take k children);
                  limit' = map_option (\<lambda>k. k - length batch) limit
              in case yield_batch self reddit batch w1 of
                   ((yielded, Some e), w2) \<Rightarrow> Some ((yielded, Some e), w2)
                 | ((yielded, None), w2) \<Rightarrow>
                     if after' = None \<or> limit' = Some 0 then Some ((yielded, None), w2)
                     else
                       (case updates_pages T fuel self reddit url after' limit' w2 of
                          None \<Rightarrow> None
                        | Some ((rest, err), w3) \<Rightarrow> Some ((yielded @ rest, err), w3)))))"

definition LiveThread_updates ::
  "transport \<Rightarrow> nat \<Rightarrow> addr \<Rightarrow> nat option \<Rightarrow> world \<Rightarrow>
   ((yielded list \<times> error option) \<times> world) option" where
  "LiveThread_updates T fuel self limit w =
     (case thread_at w self of
        None \<Rightarrow> Some (([], Some BadReference), w)
      | Some t \<Rightarrow>
          (case LiveThread_getattr T self ''id'' w of
             (Inl e, w1) \<Rightarrow> Some (([], Some e), w1)
           | (Inr i, w1) \<Rightarrow>
               updates_pages T fuel self (r_reddit t) (API_PATH_format ''live_updates'' i)
                 None limit w1))"

section \<open>LiveContributorRelationship\<close>

text \<open>
  \<^verbatim>\<open>LiveContributorRelationship._handle_permissions\<close>. A Python \<^verbatim>\<open>set\<close> iterates over
  its elements, each once, in an order the language leaves open: \<open>order\<close> is that order,
  as a function of the elements put into the set.
\<close>

definition handle_permissions :: "(string list \<Rightarrow> string list) \<Rightarrow> string list option \<Rightarrow> string" where
  "handle_permissions order permissions =
     (let permissions = (case permissions of None \<Rightarrow> order [''all''] | Some ps \<Rightarrow> order ps)
      in join '','' (map (\<lambda>x. ''+'' @ x) permissions))"

definition contributor_at :: "world \<Rightarrow> addr \<Rightarrow> addr option" where
  "contributor_at w a =
     (case obj_at w a of Some (OLiveContributorRelationship t) \<Rightarrow> Some t | _ \<Rightarrow> None)"

text \<open>
  The body shared by \<^verbatim>\<open>invite\<close> and \<^verbatim>\<open>update\<close>: the url from \<^verbatim>\<open>self.thread.id\<close>, the
  data, the post through \<^verbatim>\<open>self.thread._reddit\<close>.
\<close>

definition post_permissions ::
  "transport \<Rightarrow> (string list \<Rightarrow> string list) \<Rightarrow> string \<Rightarrow> string \<Rightarrow> addr \<Rightarrow> pyval \<Rightarrow>
   string list option \<Rightarrow> world \<Rightarrow> (error + unit) \<times> world" where
  "post_permissions T order key type self redditor permissions w =
     (case contributor_at w self of
        None \<Rightarrow> (Inl BadReference, w)
      | Some thread \<Rightarrow>
          (case LiveThread_getattr T thread ''id'' w of
             (Inl e, w1) \<Rightarrow> (Inl e, w1)
           | (Inr i, w1) \<Rightarrow>
               (let url = API_PATH_format key i;
                    data = [(''name'', PStr (py_str redditor)),
                            (''type'', PStr type),
                            (''permissions'', PStr (handle_permissions order permissions))]
                in case thread_at w1 thread of
                     None \<Rightarrow> (Inl BadReference, w1)
                   | Some t \<Rightarrow>
                       (let req = POST (r_reddit t) url (Some data)
                        in case post_result T (net w1) req of
                             Some e \<Rightarrow> (Inl e, send req w1)
                           | None \<Rightarrow> (Inr (), send req w1)))))"

definition LiveContributorRelationship_invite ::
  "transport \<Rightarrow> (string list \<Rightarrow> string list) \<Rightarrow> addr \<Rightarrow> pyval \<Rightarrow> string list option \<Rightarrow>
   world \<Rightarrow> (error + unit) \<times> world" where
  "LiveContributorRelationship_invite T order self redditor permissions w =
     post_permissions T order ''live_invite'' ''liveupdate_contributor_invite''
       self redditor permissions w"

definition LiveContributorRelationship_update ::
  "transport \<Rightarrow> (string list \<Rightarrow> string list) \<Rightarrow> addr \<Rightarrow> pyval \<Rightarrow> string list option \<Rightarrow>
   world \<Rightarrow> (error + unit) \<times> world" where
  "LiveContributorRelationship_update T order self redditor permissions w =
     post_permissions T order ''live_update_perms'' ''liveupdate_contributor''
       self redditor permissions w"

section \<open>LiveThreadContribution\<close>

definition contribution_at :: "world \<Rightarrow> addr \<Rightarrow> addr option" where
  "contribution_at w a =
     (case obj_at w a of Some (OLiveThreadContribution t) \<Rightarrow> Some t | _ \<Rightarrow> None)"

text \<open>
  The comprehension
  \<^verbatim>\<open>{key: getattr(thread, key) if value is None else value for key, value in settings.items()}\<close>.
\<close>

fun merge_settings ::
  "transport \<Rightarrow> addr \<Rightarrow> payload \<Rightarrow> world \<Rightarrow> (error + payload) \<times> world" where
  "merge_settings T thread [] w = (Inr [], w)"
| "merge_settings T thread ((key, v) # settings) w =
     (case (if v = PNone then LiveThread_getattr T thread key w else (Inr v, w)) of
        (Inl e, w1) \<Rightarrow> (Inl e, w1)
      | (Inr x, w1) \<Rightarrow>
          (case merge_settings T thread settings w1 of
             (Inl e, w2) \<Rightarrow> (Inl e, w2)
           | (Inr data, w2) \<Rightarrow> (Inr ((key, x) # data), w2)))"

text \<open>
  \<^verbatim>\<open>LiveThreadContribution.update(self, title=None, description=None, nsfw=None,
  resources=None, **other_settings)\<close>.
\<close>

definition LiveThreadContribution_update ::
  "transport \<Rightarrow> addr \<Rightarrow> pyval \<Rightarrow> pyval \<Rightarrow> pyval \<Rightarrow> pyval \<Rightarrow> payload \<Rightarrow> world \<Rightarrow>
   (error + unit) \<times> world" where
  "LiveThreadContribution_update T self title description nsfw resources other_settings w =
     (let settings = [(''title'', title), (''description'', description),
                      (''nsfw'', nsfw), (''resources'', resources)];
          settings = dict_update settings other_settings
      in if list_all (\<lambda>(k, v). v = PNone) settings then (Inr (), w)
         else
           (case contribution_at w self of
              None \<Rightarrow> (Inl BadReference, w)
            | Some owner \<Rightarrow>
                (case thread_at w owner of
                   None \<Rightarrow> (Inl BadReference, w)
                 | Some t \<Rightarrow>
                     (case LiveThread_getattr T owner ''id'' w of
                        (Inl e, w1) \<Rightarrow> (Inl e, w1)
                      | (Inr i, w1) \<Rightarrow>
                          (case LiveThread_init (r_reddit t) i None w1 of
                             (Inl e, w2) \<Rightarrow> (Inl e, w2)
                           | (Inr thread, w2) \<Rightarrow>
                               (case merge_settings T thread settings w2 of
                                  (Inl e, w3) \<Rightarrow> (Inl e, w3)
                                | (Inr data, w3) \<Rightarrow>
                                    (case LiveThread_getattr T owner ''id'' w3 of
                                       (Inl e, w4) \<Rightarrow> (Inl e, w4)
                                     | (Inr j, w4) \<Rightarrow>
                                         (let url = API_PATH_format ''live_update_thread'' j;
                                              req = POST (r_reddit t) url (Some data);
                                              w5 = send req w4
                                          in case post_result T (net w4) req of
                                               Some e \<Rightarrow> (Inl e, w5)
                                             | None \<Rightarrow>
                                                 (case thread_at w5 owner of
                                                    None \<Rightarrow> (Inl BadReference, w5)
                                                  | Some t' \<Rightarrow>
                                                      (Inr (),
                                                       heap_put owner
                                                         (OThread (reset_attributes (map fst data) t'))
                                                         w5))))))))))"

section \<open>Programs over the operations\<close>

text \<open>
  A caller's program: the operations above, one after the other, each on the store the
  one before it left. A listing that does not come to its end within its fuel leaves
  the store as it was.
\<close>

datatype operation =
    Getattr addr string
  | Getitem addr pyval
  | Updates nat addr "nat option"
  | SettingsUpdate addr pyval pyval pyval pyval payload
  | Invite addr pyval "string list option"
  | PermissionsUpdate addr pyval "string list option"
  | Contrib addr
  | Contributor addr
  | NewThread nat pyval "payload option"
  | NewUpdate nat pyval pyval "payload option"
  | UpdateGetattr addr string

fun perform :: "transport \<Rightarrow> (string list \<Rightarrow> string list) \<Rightarrow> operation \<Rightarrow> world \<Rightarrow> world" where
  "perform T order (Getattr x k) w = snd (LiveThread_getattr T x k w)"
| "perform T order (Getitem x update_id) w = snd (LiveThread_getitem T x update_id w)"
| "perform T order (Updates fuel x limit) w =
     (case LiveThread_updates T fuel x limit w of None \<Rightarrow> w | Some (r, w') \<Rightarrow> w')"
| "perform T order (SettingsUpdate x title description nsfw resources other_settings) w =
     snd (LiveThreadContribution_update T x title description nsfw resources other_settings w)"
| "perform T order (Invite x redditor permissions) w =
     snd (LiveContributorRelationship_invite T order x redditor permissions w)"
| "perform T order (PermissionsUpdate x redditor permissions) w =
     snd (LiveContributorRelationship_update T order x redditor permissions w)"
| "perform T order (Contrib x) w = snd (LiveThread_contrib x w)"
| "perform T order (Contributor x) w = snd (LiveThread_contributor x w)"
| "perform T order (NewThread reddit ident data) w = snd (LiveThread_init reddit ident data w)"
| "perform T order (NewUpdate reddit thread_id update_id data) w =
     snd (LiveUpdate_init reddit thread_id update_id data w)"
| "perform T order (UpdateGetattr x k) w = snd (LiveUpdate_getattr T x k w)"

definition perform_all ::
  "transport \<Rightarrow> (string list \<Rightarrow> string list) \<Rightarrow> operation list \<Rightarrow> world \<Rightarrow> world" where
  "perform_all T order ops w = foldl (\<lambda>w op. perform T order op w) w ops"

section \<open>A server to run the operations against\<close>

text \<open>
  A server that answers every fetch with the settings of one thread, serves a listing of
  two pages, of 100 and of 37 items, and accepts every post.
\<close>

definition demo_server :: transport where
  "demo_server =
     \<lparr>get_object = (\<lambda>log req.
        Inr [(''id'', PStr ''xyu8kmjvfrww''), (''title'', PStr ''old title''),
             (''description'', PStr ''old description''), (''nsfw'', PBool False),
             (''resources'', PStr ''old resources'')]),
      get_listing = (\<lambda>log req.
        case req of
          GET r p None \<Rightarrow> Inr (replicate 100 [(''body'', PStr ''first page'')], Some ''t1'')
        | GET r p (Some tok) \<Rightarrow> Inr (replicate 37 [(''body'', PStr ''second page'')], None)
        | POST r p data \<Rightarrow> Inl RequestException),
      post_result = (\<lambda>log req. None)\<rparr>"

text \<open>
  A store with one thread, whose title and description are cached, and its
  \<^verbatim>\<open>LiveThreadContribution\<close>.
\<close>

definition demo_world :: world where
  "demo_world =
     \<lparr>heap = [OThread \<lparr>r_reddit = 0,
                       r_dict = [(''id'', PStr ''xyu8kmjvfrww''), (''title'', PStr ''old title''),
                                 (''description'', PStr ''cached description'')],
                       r_fetched = True, t_contrib = Some 1, t_contributor = None\<rparr>,
              OLiveThreadContribution 0],
      net = []\<rparr>"

section \<open>Facts about the store and dictionaries\<close>

lemma obj_at_put:
  "obj_at (heap_put a ob w) b =
     (if a = b \<and> a < length (heap w) then Some ob else obj_at w b)"
  by (auto simp: obj_at_def heap_put_def)

lemma list_all_AList_update:
  "list_all P d \<Longrightarrow> P (k, v) \<Longrightarrow> list_all P (AList.update k v d)"
  by (induction d) auto

lemma list_all_dict_update:
  "list_all P d \<Longrightarrow> list_all P e \<Longrightarrow> list_all P (dict_update d e)"
  unfolding dict_update_def
  by (induction e arbitrary: d) (auto simp: list_all_AList_update)

section \<open>Construction\<close>

text \<open>
  C10. The check of \<^verbatim>\<open>LiveThread.__init__\<close> goes by truthiness: with the empty string as
  id and no payload the constructor raises \<^verbatim>\<open>TypeError\<close> and leaves the store and the
  network as they were; with a string id and no payload it returns exactly when the string
  is not empty.
\<close>

theorem LiveThread_init_empty_id:
  "LiveThread_init reddit (PStr []) None w = (Inl TypeError, w) \<and>
   ((\<exists>a. fst (LiveThread_init reddit (PStr x) None w) = Inr a) \<longleftrightarrow> x \<noteq> [])"
  by (simp add: LiveThread_init_def Let_def alloc_def split: prod.splits)

theorem LiveThread_init_empty_id_witness:
  "LiveThread_init 0 (PStr []) None \<lparr>heap = [], net = []\<rparr>
     = (Inl TypeError, \<lparr>heap = [], net = []\<rparr>) \<and>
   (\<exists>a. fst (LiveThread_init 0 (PStr ''ukaeu1ik4sw5'') None \<lparr>heap = [], net = []\<rparr>) = Inr a)"
  using LiveThread_init_empty_id [of 0 "\<lparr>heap = [], net = []\<rparr>" "''ukaeu1ik4sw5''"] by simp

text \<open>
  C2, as the source has it. \<^verbatim>\<open>LiveThread.__init__\<close> raises \<^verbatim>\<open>TypeError\<close> exactly when id
  and payload are both truthy or both falsy. \<^verbatim>\<open>LiveUpdate.__init__\<close> raises
  \<^verbatim>\<open>TypeError\<close> exactly when there is no payload and the thread id or the update id is
  falsy; a payload is accepted whatever ids come with it. Neither constructor makes a
  request, and one that raises leaves the store as it was.
\<close>

theorem constructors_usage_error:
  "(fst (LiveThread_init reddit i d w) = Inl TypeError \<longleftrightarrow> py_bool i = py_bool_dict d) \<and>
   (fst (LiveUpdate_init reddit ti ui d w) = Inl TypeError \<longleftrightarrow>
      d = None \<and> \<not> (py_bool ti \<and> py_bool ui)) \<and>
   net (snd (LiveThread_init reddit i d w)) = net w \<and>
   net (snd (LiveUpdate_init reddit ti ui d w)) = net w \<and>
   (py_bool i = py_bool_dict d \<longrightarrow> snd (LiveThread_init reddit i d w) = w) \<and>
   (d = None \<and> \<not> (py_bool ti \<and> py_bool ui) \<longrightarrow> snd (LiveUpdate_init reddit ti ui d w) = w)"
  by (auto simp: LiveThread_init_def LiveUpdate_init_def Let_def alloc_def split: prod.splits)

theorem constructors_usage_error_witness:
  "fst (LiveThread_init 0 (PStr ''ukaeu1ik4sw5'') (Some [(''id'', PStr ''ukaeu1ik4sw5'')])
          \<lparr>heap = [], net = []\<rparr>) = Inl TypeError \<and>
   fst (LiveUpdate_init 0 PNone PNone None \<lparr>heap = [], net = []\<rparr>) = Inl TypeError \<and>
   snd (LiveThread_init 0 PNone None \<lparr>heap = [], net = []\<rparr>) = \<lparr>heap = [], net = []\<rparr> \<and>
   snd (LiveUpdate_init 0 PNone PNone None \<lparr>heap = [], net = []\<rparr>) = \<lparr>heap = [], net = []\<rparr>"
  using constructors_usage_error
          [of 0 "PStr ''ukaeu1ik4sw5''" "Some [(''id'', PStr ''ukaeu1ik4sw5'')]"
              "\<lparr>heap = [], net = []\<rparr>" PNone PNone]
        constructors_usage_error [of 0 PNone None "\<lparr>heap = [], net = []\<rparr>" PNone PNone]
  by simp

text \<open>
  C2, as the spec has it, fails on \<^verbatim>\<open>LiveUpdate\<close>: given a thread id, an update id and a
  payload, the constructor returns an object.
\<close>

theorem LiveUpdate_init_both_counterexample:
  "fst (LiveUpdate_init 0 (PStr ''ukaeu1ik4sw5'') (PStr ''7827987a-c998-11e4-a0b9-22000b6a88d2'')
          (Some [(''body'', PStr ''hello'')]) \<lparr>heap = [], net = []\<rparr>) = Inr 0"
  by (simp add: LiveUpdate_init_def Let_def alloc_def split: prod.splits)

section \<open>Permissions\<close>

lemma order_singleton:
  assumes "distinct (order [x])" "set (order [x]) = {x}"
  shows "order [x] = [x]"
proof (cases "order [x]")
  case Nil
  with assms show ?thesis by simp
next
  case (Cons y ys)
  with assms have "y = x" by auto
  moreover from Cons assms have "ys = []" by (cases ys) auto
  ultimately show ?thesis using Cons by simp
qed

lemma order_pair:
  assumes "distinct (order [x, y])" "set (order [x, y]) = {x, y}" "x \<noteq> y"
  shows "order [x, y] = [x, y] \<or> order [x, y] = [y, x]"
proof -
  have "length (order [x, y]) = card {x, y}" using assms distinct_card by metis
  then have len: "length (order [x, y]) = 2" using assms by simp
  then obtain a b where ab: "order [x, y] = [a, b]"
    by (metis (no_types, opaque_lifting) One_nat_def Suc_1 length_0_conv length_Suc_conv)
  with assms show ?thesis by (auto simp: doubleton_eq_iff)
qed

lemma post_permissions_sends:
  assumes "contributor_at w self = Some thread"
    and "thread_at w thread = Some t"
    and "map_of (r_dict t) ''id'' = Some i"
  shows "net (snd (post_permissions T order key type self redditor permissions w)) =
           net w @ [POST (r_reddit t) (key, py_str i)
                      (Some [(''name'', PStr (py_str redditor)), (''type'', PStr type),
                             (''permissions'', PStr (handle_permissions order permissions))])]"
  using assms
  by (simp add: post_permissions_def LiveThread_getattr_def RedditBase_getattr_def LiveThread_info_path_def API_PATH_format_def send_def Let_def
      split: option.splits)

text \<open>
  C4. The permission encoding: \<^verbatim>\<open>None\<close> encodes as \<^verbatim>\<open>"+all"\<close>, the empty list as the
  empty string, the list \<^verbatim>\<open>["manage", "settings"]\<close> as \<^verbatim>\<open>"+manage,+settings"\<close> or
  \<^verbatim>\<open>"+settings,+manage"\<close>, and any list as the comma-joined \<^verbatim>\<open>+name\<close> tokens of its
  elements, each once, in some order. \<^verbatim>\<open>invite\<close> and \<^verbatim>\<open>update\<close> post this encoding
  under the key \<^verbatim>\<open>permissions\<close>. The order in which a \<^verbatim>\<open>set\<close> iterates is any order
  that lists each element once.
\<close>

theorem permissions_encoding:
  assumes "\<And>xs. distinct (order xs) \<and> set (order xs) = set xs"
    and "contributor_at w self = Some thread"
    and "thread_at w thread = Some t"
    and "map_of (r_dict t) ''id'' = Some i"
  shows "handle_permissions order None = ''+all'' \<and>
         handle_permissions order (Some []) = '''' \<and>
         (handle_permissions order (Some [''manage'', ''settings'']) = ''+manage,+settings'' \<or>
          handle_permissions order (Some [''manage'', ''settings'']) = ''+settings,+manage'') \<and>
         (\<exists>qs. distinct qs \<and> set qs = set ps \<and>
               handle_permissions order (Some ps) = join '','' (map (\<lambda>x. ''+'' @ x) qs)) \<and>
         net (snd (LiveContributorRelationship_invite T order self redditor permissions w)) =
           net w @ [POST (r_reddit t) (''live_invite'', py_str i)
                      (Some [(''name'', PStr (py_str redditor)),
                             (''type'', PStr ''liveupdate_contributor_invite''),
                             (''permissions'', PStr (handle_permissions order permissions))])] \<and>
         net (snd (LiveContributorRelationship_update T order self redditor permissions w)) =
           net w @ [POST (r_reddit t) (''live_update_perms'', py_str i)
                      (Some [(''name'', PStr (py_str redditor)),
                             (''type'', PStr ''liveupdate_contributor''),
                             (''permissions'', PStr (handle_permissions order permissions))])]"
proof -
  have a: "order [''all''] = [''all'']"
    using assms(1)[of "[''all'']"] by (intro order_singleton) auto
  have b: "order [] = []" using assms(1)[of "[]"] by simp
  have c: "order [''manage'', ''settings''] = [''manage'', ''settings''] \<or>
           order [''manage'', ''settings''] = [''settings'', ''manage'']"
    using assms(1)[of "[''manage'', ''settings'']"] by (intro order_pair) auto
  have d: "\<exists>qs. distinct qs \<and> set qs = set ps \<and>
               handle_permissions order (Some ps) = join '','' (map (\<lambda>x. ''+'' @ x) qs)"
    using assms(1)[of ps] by (intro exI[of _ "order ps"]) (simp add: handle_permissions_def)
  have a': "handle_permissions order None = ''+all''"
    using a by (simp add: handle_permissions_def)
  have b': "handle_permissions order (Some []) = ''''"
    using b by (simp add: handle_permissions_def)
  have c': "handle_permissions order (Some [''manage'', ''settings'']) = ''+manage,+settings'' \<or>
          handle_permissions order (Some [''manage'', ''settings'']) = ''+settings,+manage''"
    using c by (auto simp: handle_permissions_def)
  note e = post_permissions_sends[OF assms(2,3,4), of T order _ _ redditor permissions]
  show ?thesis
    unfolding LiveContributorRelationship_invite_def LiveContributorRelationship_update_def
    using a' b' c' d e by blast
qed

theorem permissions_encoding_witness:
  "handle_permissions remdups None = ''+all'' \<and>
   handle_permissions remdups (Some []) = '''' \<and>
   handle_permissions remdups (Some [''manage'', ''settings'']) = ''+manage,+settings'' \<and>
   net (snd (LiveContributorRelationship_invite demo_server remdups 1 (PStr ''spez'') (Some [''manage'', ''settings''])
     \<lparr>heap = [OThread \<lparr>r_reddit = 0, r_dict = [(''id'', PStr ''ukaeu1ik4sw5'')], r_fetched = False,
                 t_contrib = None, t_contributor = Some 1\<rparr>, OLiveContributorRelationship 0], net = []\<rparr>)) =
     [POST 0 (''live_invite'', ''ukaeu1ik4sw5'')
                      (Some [(''name'', PStr ''spez''),
                             (''type'', PStr ''liveupdate_contributor_invite''),
                             (''permissions'', PStr ''+manage,+settings'')])]"
proof -
  let ?t = "\<lparr>r_reddit = 0, r_dict = [(''id'', PStr ''ukaeu1ik4sw5'')], r_fetched = False,
                 t_contrib = None, t_contributor = Some 1\<rparr>"
  let ?w = "\<lparr>heap = [OThread ?t, OLiveContributorRelationship 0], net = []\<rparr>"
  have h1: "\<And>xs::string list. distinct (remdups xs) \<and> set (remdups xs) = set xs" by simp
  have h2: "contributor_at ?w 1 = Some 0" by (simp add: contributor_at_def obj_at_def)
  have h3: "thread_at ?w 0 = Some ?t" by (simp add: thread_at_def obj_at_def)
  have h4: "map_of (r_dict ?t) ''id'' = Some (PStr ''ukaeu1ik4sw5'')" by simp
  have v: "handle_permissions remdups (Some [''manage'', ''settings'']) = ''+manage,+settings''"
    by (simp add: handle_permissions_def)
  from permissions_encoding[of remdups, OF h1 h2 h3 h4, of "[]" demo_server "PStr ''spez''" "Some [''manage'', ''settings'']"] v
  show ?thesis by simp
qed

section \<open>Settings\<close>

text \<open>
  C5. \<^verbatim>\<open>LiveThreadContribution.update\<close> with title, description, nsfw and resources all
  \<^verbatim>\<open>None\<close> and no other settings returns with the store and the network as they were:
  no request, no change to the owning thread. The same holds when other settings are
  given and all are \<^verbatim>\<open>None\<close>.
\<close>

theorem update_noop:
  assumes "list_all (\<lambda>(k, v). v = PNone) other_settings"
  shows "LiveThreadContribution_update T self PNone PNone PNone PNone [] w = (Inr (), w) \<and>
     LiveThreadContribution_update T self PNone PNone PNone PNone other_settings w = (Inr (), w)"
proof -
  let ?s = "[(''title'', PNone), (''description'', PNone), (''nsfw'', PNone), (''resources'', PNone)]"
  have "list_all (\<lambda>(k, v). v = PNone) ?s" by simp
  then have "list_all (\<lambda>(k, v). v = PNone) (dict_update ?s other_settings)"
    using assms by (rule list_all_dict_update)
  moreover have "list_all (\<lambda>(k, v). v = PNone) (dict_update ?s [])"
    by (simp add: dict_update_def)
  ultimately show ?thesis
    by (simp add: LiveThreadContribution_update_def)
qed

theorem update_noop_witness:
  "LiveThreadContribution_update demo_server 1 PNone PNone PNone PNone [(''foo'', PNone)]
     \<lparr>heap = [OThread \<lparr>r_reddit = 0, r_dict = [(''id'', PStr ''xyu8kmjvfrww'')],
                       r_fetched = False, t_contrib = Some 1, t_contributor = None\<rparr>,
              OLiveThreadContribution 0], net = []\<rparr>
   = (Inr (),
      \<lparr>heap = [OThread \<lparr>r_reddit = 0, r_dict = [(''id'', PStr ''xyu8kmjvfrww'')],
                       r_fetched = False, t_contrib = Some 1, t_contributor = None\<rparr>,
              OLiveThreadContribution 0], net = []\<rparr>)"
  using update_noop [of "[(''foo'', PNone)]" demo_server 1] by simp

section \<open>The author of an update\<close>

lemma LiveUpdate_setattr_reddit [simp]:
  "r_reddit (LiveUpdate_setattr u k v) = r_reddit u"
  by (simp add: LiveUpdate_setattr_def object_setattr_def)

lemma map_of_LiveUpdate_setattr:
  "map_of (r_dict (LiveUpdate_setattr u k v)) x =
     (if x = k then Some (if k = ''author'' then PRedditor (r_reddit u) v else v)
      else map_of (r_dict u) x)"
  by (simp add: LiveUpdate_setattr_def object_setattr_def update_conv')

lemma author_objectified_setattr:
  "author_objectified u \<Longrightarrow> author_objectified (LiveUpdate_setattr u k v)"
  by (simp add: author_objectified_def map_of_LiveUpdate_setattr)

lemma foldl_setattr_objectified:
  "author_objectified u \<Longrightarrow>
   author_objectified (foldl (\<lambda>s (k, v). LiveUpdate_setattr s k v) u d)"
  by (induction d arbitrary: u) (auto simp: author_objectified_setattr)

lemma foldl_setattr_other:
  "x \<notin> fst ` set d \<Longrightarrow>
   map_of (r_dict (foldl (\<lambda>s (k, v). LiveUpdate_setattr s k v) u d)) x = map_of (r_dict u) x"
  by (induction d arbitrary: u) (auto simp: map_of_LiveUpdate_setattr)

lemma foldl_setattr_lookup:
  "distinct (map fst d) \<Longrightarrow> map_of d x = Some v \<Longrightarrow>
   map_of (r_dict (foldl (\<lambda>s (k, v). LiveUpdate_setattr s k v) u d)) x =
     Some (if x = ''author'' then PRedditor (r_reddit u) v else v)"
proof (induction d arbitrary: u)
  case Nil
  then show ?case by simp
next
  case (Cons p d)
  obtain k y where p: "p = (k, y)" by (cases p)
  show ?case
  proof (cases "k = x")
    case True
    with Cons.prems p have "y = v" and "x \<notin> fst ` set d" by auto
    with True p show ?thesis
      by (simp add: foldl_setattr_other map_of_LiveUpdate_setattr)
  next
    case False
    with Cons.prems p have "distinct (map fst d)" "map_of d x = Some v" by auto
    from Cons.IH[OF this, of "LiveUpdate_setattr u k y"] p show ?thesis by simp
  qed
qed

lemma LiveUpdate_init_payload:
  "LiveUpdate_init reddit ti ui (Some d) w =
     (Inr (length (heap w)),
      w\<lparr>heap := heap w @
        [OUpdate ((foldl (\<lambda>s (k, v). LiveUpdate_setattr s k v)
                   \<lparr>r_reddit = reddit, r_dict = [], r_fetched = False,
                    u_thread = None, u_contrib = None\<rparr> d)\<lparr>r_fetched := True\<rparr>)]\<rparr>)"
  by (cases d) (simp_all add: LiveUpdate_init_def RedditBase_init_def alloc_def Let_def)

lemma update_at_alloc:
  "update_at (w\<lparr>heap := heap w @ [OUpdate u]\<rparr>) (length (heap w)) = Some u"
  by (simp add: update_at_def obj_at_def)

lemma LiveUpdate_init_objectified:
  assumes "LiveUpdate_init reddit ti ui d w = (Inr a, w')"
  shows "\<exists>u. update_at w' a = Some u \<and> author_objectified u"
proof (cases d)
  case None
  with assms show ?thesis
    by (auto simp: LiveUpdate_init_def RedditBase_init_def LiveThread_init_def alloc_def Let_def
        update_at_def obj_at_def author_objectified_def LiveUpdate_setattr_def
        object_setattr_def nth_append split: if_splits)
next
  case (Some p)
  let ?b = "\<lparr>r_reddit = reddit, r_dict = [], r_fetched = False, u_thread = None, u_contrib = None\<rparr>"
  have "author_objectified ?b" by (simp add: author_objectified_def)
  then have "author_objectified (foldl (\<lambda>s (k, v). LiveUpdate_setattr s k v) ?b p)"
    by (rule foldl_setattr_objectified)
  then have "author_objectified ((foldl (\<lambda>s (k, v). LiveUpdate_setattr s k v) ?b p)\<lparr>r_fetched := True\<rparr>)"
    by (simp add: author_objectified_def)
  with assms Some show ?thesis
    by (auto simp: LiveUpdate_init_payload update_at_alloc)
qed

section \<open>Item access\<close>

lemma thread_at_length: "thread_at w a = Some t \<Longrightarrow> a < length (heap w) \<and> heap w ! a = OThread t"
  by (auto simp: thread_at_def obj_at_def split: if_splits option.splits obj.splits)

lemma getattr_present:
  "thread_at w self = Some t \<Longrightarrow> map_of (r_dict t) k = Some v \<Longrightarrow>
   LiveThread_getattr T self k w = (Inr v, w)"
  by (simp add: LiveThread_getattr_def RedditBase_getattr_def LiveThread_info_path_def)

section \<open>Updating the settings\<close>

lemma thread_at_put:
  "thread_at (heap_put a (OThread t) w) b =
     (if a = b \<and> a < length (heap w) then Some t else thread_at w b)"
  by (simp add: thread_at_def obj_at_put)

lemma thread_at_send [simp]: "thread_at (send req w) a = thread_at w a"
  by (simp add: thread_at_def obj_at_def send_def)

lemma net_send [simp]: "net (send req w) = net w @ [req]"
  by (simp add: send_def)

lemma net_heap_put [simp]: "net (heap_put a ob w) = net w"
  by (simp add: heap_put_def)

lemma heap_send [simp]: "heap (send req w) = heap w"
  by (simp add: send_def)

lemma length_heap_put [simp]: "length (heap (heap_put a ob w)) = length (heap w)"
  by (simp add: heap_put_def)

text \<open>The settings without a value are taken from a thread that holds them.\<close>

lemma merge_settings_present:
  assumes "thread_at w thread = Some t"
    and "\<forall>(k, v) \<in> set settings. v = PNone \<longrightarrow> map_of (r_dict t) k \<noteq> None"
  shows "merge_settings T thread settings w =
           (Inr (map (\<lambda>(k, v). (k, if v = PNone then the (map_of (r_dict t) k) else v)) settings), w)"
  using assms
proof (induction settings)
  case Nil
  then show ?case by simp
next
  case (Cons p settings)
  obtain k v where p: "p = (k, v)" by (cases p)
  from Cons.prems have rest: "\<forall>(k, v) \<in> set settings. v = PNone \<longrightarrow> map_of (r_dict t) k \<noteq> None"
    by simp
  note ih = Cons.IH[OF Cons.prems(1) rest]
  show ?case
  proof (cases "v = PNone")
    case True
    with Cons.prems p obtain x where x: "map_of (r_dict t) k = Some x" by auto
    with True p ih Cons.prems(1) show ?thesis
      by (simp add: getattr_present)
  next
    case False
    with p ih show ?thesis by simp
  qed
qed


lemma AList_update_fresh:
  "k \<notin> fst ` set d \<Longrightarrow> AList.update k v d = d @ [(k, v)]"
  by (induction d) auto

lemma dict_update_append:
  "distinct (map fst e) \<Longrightarrow> fst ` set e \<inter> fst ` set d = {} \<Longrightarrow> dict_update d e = d @ e"
proof (induction e arbitrary: d)
  case Nil
  then show ?case by (simp add: dict_update_def)
next
  case (Cons p e)
  obtain k v where p: "p = (k, v)" by (cases p)
  from Cons.prems p have k: "k \<notin> fst ` set d" by auto
  from Cons.prems p have "distinct (map fst e)" "fst ` set e \<inter> fst ` set (d @ [(k, v)]) = {}"
    by auto
  from Cons.IH[OF this] have "dict_update (d @ [(k, v)]) e = d @ [(k, v)] @ e" by simp
  with k p show ?case by (simp add: dict_update_def AList_update_fresh)
qed

lemma map_of_dict_update:
  "distinct (map fst e) \<Longrightarrow>
   map_of (dict_update d e) k = (case map_of e k of Some v \<Rightarrow> Some v | None \<Rightarrow> map_of d k)"
proof (induction e arbitrary: d)
  case Nil
  then show ?case by (simp add: dict_update_def)
next
  case (Cons p e)
  obtain k' v' where p: "p = (k', v')" by (cases p)
  from Cons.prems p have d: "distinct (map fst e)" and n: "map_of e k' = None"
    by (auto simp: map_of_eq_None_iff)
  have "dict_update d (p # e) = dict_update (AList.update k' v' d) e"
    by (simp add: dict_update_def p)
  with Cons.IH[OF d, of "AList.update k' v' d"] n p show ?case
    by (auto simp: update_conv' split: option.splits)
qed

lemma getattr_fetch:
  assumes "thread_at w a = Some t"
    and "map_of (r_dict t) k = None" and "\<not> r_fetched t"
    and "map_of (r_dict t) ''id'' = Some i"
    and "get_object T (net w) (GET (r_reddit t) (''liveabout'', py_str i) None) = Inr other"
    and "map_of (dict_update (r_dict t) other) k = Some v"
  shows "LiveThread_getattr T a k w =
           (Inr v, heap_put a (OThread (t\<lparr>r_dict := dict_update (r_dict t) other, r_fetched := True\<rparr>))
                     (send (GET (r_reddit t) (''liveabout'', py_str i) None) w))"
  using assms by (simp add: LiveThread_getattr_def RedditBase_getattr_def LiveThread_info_path_def API_PATH_format_def Let_def)


lemma update_title_run:
  assumes own: "contribution_at w self = Some owner"
    and t: "thread_at w owner = Some t"
    and i: "map_of (r_dict t) ''id'' = Some i" "py_bool i"
    and title: "title \<noteq> PNone"
    and extras: "distinct (map fst extras)"
      "fst ` set extras \<inter> {''title'', ''description'', ''nsfw'', ''resources''} = {}"
    and get: "get_object T (net w) (GET (r_reddit t) (''liveabout'', py_str i) None) = Inr other"
      "distinct (map fst other)"
    and other: "map_of other ''description'' = Some d" "map_of other ''nsfw'' = Some n"
      "map_of other ''resources'' = Some rs"
    and filled: "\<forall>(k, v) \<in> set extras. v = PNone \<longrightarrow> map_of (dict_update [(''id'', i)] other) k \<noteq> None"
    and data: "data = [(''title'', title), (''description'', d), (''nsfw'', n), (''resources'', rs)] @
        map (\<lambda>(k, v). (k, if v = PNone then the (map_of (dict_update [(''id'', i)] other) k) else v))
          extras"
    and post: "post_result T (net w @ [GET (r_reddit t) (''liveabout'', py_str i) None])
        (POST (r_reddit t) (''live_update_thread'', py_str i) (Some data)) = None"
  shows "LiveThreadContribution_update T self title PNone PNone PNone extras w =
    (Inr (),
     heap_put owner (OThread (reset_attributes (map fst data) t))
       (send (POST (r_reddit t) (''live_update_thread'', py_str i) (Some data))
         (heap_put (length (heap w))
            (OThread \<lparr>r_reddit = r_reddit t, r_dict = dict_update [(''id'', i)] other,
                      r_fetched = True, t_contrib = None, t_contributor = None\<rparr>)
            (send (GET (r_reddit t) (''liveabout'', py_str i) None)
               (w\<lparr>heap := heap w @
                  [OThread \<lparr>r_reddit = r_reddit t, r_dict = [(''id'', i)], r_fetched = False,
                            t_contrib = None, t_contributor = None\<rparr>]\<rparr>)))))"
proof -
  let ?req1 = "GET (r_reddit t) (''liveabout'', py_str i) None"
  let ?req2 = "POST (r_reddit t) (''live_update_thread'', py_str i) (Some data)"
  let ?tf = "\<lparr>r_reddit = r_reddit t, r_dict = [(''id'', i)], r_fetched = False,
              t_contrib = None, t_contributor = None\<rparr>"
  let ?fd = "dict_update [(''id'', i)] other"
  let ?tf' = "\<lparr>r_reddit = r_reddit t, r_dict = ?fd, r_fetched = True,
              t_contrib = None, t_contributor = None\<rparr>"
  let ?four = "[(''title'', title), (''description'', PNone), (''nsfw'', PNone), (''resources'', PNone)]"
  let ?w2 = "w\<lparr>heap := heap w @ [OThread ?tf]\<rparr>"
  let ?w3 = "heap_put (length (heap w)) (OThread ?tf') (send ?req1 ?w2)"
  let ?fill = "\<lambda>(k, v). (k, if v = PNone then the (map_of ?fd k) else v)"
  from t have lt: "owner < length (heap w)" and ho: "heap w ! owner = OThread t"
    using thread_at_length by auto
  have settings: "dict_update ?four extras = ?four @ extras"
    using extras by (intro dict_update_append) auto
  have notall: "\<not> list_all (\<lambda>(k, v). v = PNone) (?four @ extras)"
    using title by simp
  have g1: "LiveThread_getattr T owner ''id'' w = (Inr i, w)"
    using t i(1) by (rule getattr_present)
  have init: "LiveThread_init (r_reddit t) i None w = (Inr (length (heap w)), ?w2)"
    using i(2) by (simp add: LiveThread_init_def RedditBase_init_def object_setattr_def alloc_def)
  have tf: "thread_at ?w2 (length (heap w)) = Some ?tf"
    by (simp add: thread_at_def obj_at_def)
  have fd: "map_of ?fd ''description'' = Some d" "map_of ?fd ''nsfw'' = Some n"
    "map_of ?fd ''resources'' = Some rs"
    using other by (simp_all add: map_of_dict_update[OF get(2)])
  have g2: "LiveThread_getattr T (length (heap w)) ''description'' ?w2 = (Inr d, ?w3)"
    using getattr_fetch[OF tf, of "''description''" i T other d] get(1) fd(1) by simp
  have tf': "thread_at ?w3 (length (heap w)) = Some ?tf'"
    by (simp add: thread_at_put)
  have pres: "\<forall>(k, v) \<in> set ((''nsfw'', PNone) # (''resources'', PNone) # extras).
                v = PNone \<longrightarrow> map_of (r_dict ?tf') k \<noteq> None"
    using filled fd by auto
  have m2: "merge_settings T (length (heap w)) ((''nsfw'', PNone) # (''resources'', PNone) # extras) ?w3
              = (Inr ((''nsfw'', n) # (''resources'', rs) # map ?fill extras), ?w3)"
    by (subst merge_settings_present[OF tf' pres]) (auto simp: fd)
  have m: "merge_settings T (length (heap w)) (?four @ extras) ?w2 = (Inr data, ?w3)"
    apply (simp only: append_Cons append_Nil)
    apply (subst merge_settings.simps)
    apply (subst merge_settings.simps)
    apply (simp add: title g2 m2 data del: merge_settings.simps)
    done
  have t2: "thread_at ?w2 owner = Some t"
    using t lt by (simp add: thread_at_def obj_at_def nth_append)
  have t3: "thread_at ?w3 owner = Some t"
    using t2 lt by (simp add: thread_at_put)
  have g3: "LiveThread_getattr T owner ''id'' ?w3 = (Inr i, ?w3)"
    using t3 i(1) by (rule getattr_present)
  have n3: "net ?w3 = net w @ [?req1]" by simp
  have t5: "thread_at (send ?req2 ?w3) owner = Some t"
    using t3 by simp
  show ?thesis
    unfolding LiveThreadContribution_update_def
    using title own t g1 init m g3 post n3 t5
    by (simp add: settings API_PATH_format_def Let_def del: merge_settings.simps)
qed

text \<open>
  C1, as the source has it. \<^verbatim>\<open>LiveThreadContribution.update\<close> with a title, with
  description, nsfw and resources \<^verbatim>\<open>None\<close>, and with other settings under their own
  keys, on a thread that holds its id and against a server whose answer has the three
  settings: the call returns; it makes exactly one \<^verbatim>\<open>get\<close>, of the settings of a thread
  object built for the purpose, and then exactly one \<^verbatim>\<open>post\<close>, whose body has the title
  given, the description, nsfw and resources fetched, and the other settings; afterwards
  the owning thread has lost the cached attributes named by the keys of the body, that is
  title, description, nsfw and resources and the other settings' keys, it is marked to
  fetch again, its other attributes are as before, and so is every other object there
  was.
\<close>

theorem update_title_merges_and_resets:
  assumes "contribution_at w self = Some owner"
    and "thread_at w owner = Some t"
    and "map_of (r_dict t) ''id'' = Some i" and "py_bool i"
    and "title \<noteq> PNone"
    and "distinct (map fst extras)"
    and "fst ` set extras \<inter> {''title'', ''description'', ''nsfw'', ''resources''} = {}"
    and "get_object T (net w) (GET (r_reddit t) (''liveabout'', py_str i) None) = Inr other"
    and "distinct (map fst other)"
    and "map_of other ''description'' = Some d" and "map_of other ''nsfw'' = Some n"
    and "map_of other ''resources'' = Some rs"
    and "\<forall>(k, v) \<in> set extras. v = PNone \<longrightarrow> map_of (dict_update [(''id'', i)] other) k \<noteq> None"
    and "data = [(''title'', title), (''description'', d), (''nsfw'', n), (''resources'', rs)] @
        map (\<lambda>(k, v). (k, if v = PNone then the (map_of (dict_update [(''id'', i)] other) k) else v))
          extras"
    and "post_result T (net w @ [GET (r_reddit t) (''liveabout'', py_str i) None])
        (POST (r_reddit t) (''live_update_thread'', py_str i) (Some data)) = None"
  shows "fst (LiveThreadContribution_update T self title PNone PNone PNone extras w) = Inr () \<and>
     net (snd (LiveThreadContribution_update T self title PNone PNone PNone extras w)) =
       net w @ [GET (r_reddit t) (''liveabout'', py_str i) None,
                POST (r_reddit t) (''live_update_thread'', py_str i) (Some data)] \<and>
     thread_at (snd (LiveThreadContribution_update T self title PNone PNone PNone extras w)) owner =
       Some (t\<lparr>r_dict := filter (\<lambda>(k, v). k \<notin> {''title'', ''description'', ''nsfw'', ''resources''}
                                              \<union> fst ` set extras) (r_dict t),
               r_fetched := False\<rparr>) \<and>
     (\<forall>x. x \<noteq> owner \<and> obj_at w x \<noteq> None \<longrightarrow>
        obj_at (snd (LiveThreadContribution_update T self title PNone PNone PNone extras w)) x =
          obj_at w x)"
proof -
  note run = update_title_run[OF assms]
  from assms(2) have lt: "owner < length (heap w)" using thread_at_length by auto
  have keys: "set (map fst data) = {''title'', ''description'', ''nsfw'', ''resources''} \<union> fst ` set extras"
  proof -
    have "map fst (map (\<lambda>(k, v). (k, if v = PNone then the (map_of (dict_update [(''id'', i)] other) k) else v))
            extras) = map fst extras"
      by (induction extras) auto
    then have "map fst data = [''title'', ''description'', ''nsfw'', ''resources''] @ map fst extras"
      unfolding assms(14) by (simp del: map_map)
    then show ?thesis by auto
  qed
  have 1: "fst (LiveThreadContribution_update T self title PNone PNone PNone extras w) = Inr ()"
    by (simp add: run)
  have 2: "net (snd (LiveThreadContribution_update T self title PNone PNone PNone extras w)) =
       net w @ [GET (r_reddit t) (''liveabout'', py_str i) None,
                POST (r_reddit t) (''live_update_thread'', py_str i) (Some data)]"
    by (simp add: run)
  have 3: "thread_at (snd (LiveThreadContribution_update T self title PNone PNone PNone extras w)) owner =
       Some (t\<lparr>r_dict := filter (\<lambda>(k, v). k \<notin> {''title'', ''description'', ''nsfw'', ''resources''}
                                              \<union> fst ` set extras) (r_dict t),
               r_fetched := False\<rparr>)"
  proof -
    have r: "reset_attributes (map fst data) t =
        t\<lparr>r_dict := filter (\<lambda>(k, v). k \<notin> {''title'', ''description'', ''nsfw'', ''resources''}
                                              \<union> fst ` set extras) (r_dict t),
               r_fetched := False\<rparr>"
      unfolding reset_attributes_def keys ..
    show ?thesis using lt unfolding run r by (simp add: thread_at_put)
  qed
  have 4: "obj_at (snd (LiveThreadContribution_update T self title PNone PNone PNone extras w)) x =
          obj_at w x" if "x \<noteq> owner \<and> obj_at w x \<noteq> None" for x
    using that lt
    by (auto simp: run obj_at_put obj_at_def heap_put_def send_def nth_append split: if_splits)
  from 1 2 3 4 show ?thesis by blast
qed

theorem update_title_merges_and_resets_witness:
  "fst (LiveThreadContribution_update demo_server 1 (PStr ''T'') PNone PNone PNone [] demo_world) = Inr () \<and>
   net (snd (LiveThreadContribution_update demo_server 1 (PStr ''T'') PNone PNone PNone [] demo_world)) =
     [GET 0 (''liveabout'', ''xyu8kmjvfrww'') None,
      POST 0 (''live_update_thread'', ''xyu8kmjvfrww'')
        (Some [(''title'', PStr ''T''), (''description'', PStr ''old description''),
               (''nsfw'', PBool False), (''resources'', PStr ''old resources'')])] \<and>
   thread_at (snd (LiveThreadContribution_update demo_server 1 (PStr ''T'') PNone PNone PNone []
        demo_world)) 0 =
     Some \<lparr>r_reddit = 0, r_dict = [(''id'', PStr ''xyu8kmjvfrww'')], r_fetched = False,
           t_contrib = Some 1, t_contributor = None\<rparr>"
proof -
  let ?t = "\<lparr>r_reddit = 0,
             r_dict = [(''id'', PStr ''xyu8kmjvfrww''), (''title'', PStr ''old title''),
                       (''description'', PStr ''cached description'')],
             r_fetched = True, t_contrib = Some 1, t_contributor = None\<rparr>"
  let ?other = "[(''id'', PStr ''xyu8kmjvfrww''), (''title'', PStr ''old title''),
             (''description'', PStr ''old description''), (''nsfw'', PBool False),
             (''resources'', PStr ''old resources'')]"
  let ?data = "[(''title'', PStr ''T''), (''description'', PStr ''old description''),
               (''nsfw'', PBool False), (''resources'', PStr ''old resources'')]"
  have h1: "contribution_at demo_world 1 = Some 0"
    by (simp add: contribution_at_def obj_at_def demo_world_def)
  have h2: "thread_at demo_world 0 = Some ?t"
    by (simp add: thread_at_def obj_at_def demo_world_def)
  have h3: "map_of (r_dict ?t) ''id'' = Some (PStr ''xyu8kmjvfrww'')" by simp
  have h4: "py_bool (PStr ''xyu8kmjvfrww'')" by simp
  have h5: "PStr ''T'' \<noteq> PNone" by simp
  have h6: "distinct (map fst ([] :: payload))" by simp
  have h7: "fst ` set ([] :: payload) \<inter> {''title'', ''description'', ''nsfw'', ''resources''} = {}"
    by simp
  have h8: "get_object demo_server (net demo_world)
      (GET (r_reddit ?t) (''liveabout'', py_str (PStr ''xyu8kmjvfrww'')) None) = Inr ?other"
    by (simp add: demo_server_def)
  have h9: "distinct (map fst ?other)" by simp
  have h10: "map_of ?other ''description'' = Some (PStr ''old description'')" by simp
  have h11: "map_of ?other ''nsfw'' = Some (PBool False)" by simp
  have h12: "map_of ?other ''resources'' = Some (PStr ''old resources'')" by simp
  have h13: "\<forall>(k, v) \<in> set ([] :: payload). v = PNone \<longrightarrow>
      map_of (dict_update [(''id'', PStr ''xyu8kmjvfrww'')] ?other) k \<noteq> None"
    by simp
  have h14: "?data = [(''title'', PStr ''T''), (''description'', PStr ''old description''),
               (''nsfw'', PBool False), (''resources'', PStr ''old resources'')] @
        map (\<lambda>(k, v). (k, if v = PNone
            then the (map_of (dict_update [(''id'', PStr ''xyu8kmjvfrww'')] ?other) k) else v)) []"
    by simp
  have h15: "post_result demo_server
      (net demo_world @ [GET (r_reddit ?t) (''liveabout'', py_str (PStr ''xyu8kmjvfrww'')) None])
      (POST (r_reddit ?t) (''live_update_thread'', py_str (PStr ''xyu8kmjvfrww'')) (Some ?data)) = None"
    by (simp add: demo_server_def)
  have n: "net demo_world = []" by (simp add: demo_world_def)
  from update_title_merges_and_resets
         [OF h1 h2 h3 h4 h5 h6 h7 h8 h9 h10 h11 h12 h13 h14 h15] n
  show ?thesis by simp
qed

text \<open>
  C1, as the spec has it, fails: the call with only a title removes the cached
  description of the owning thread as well.
\<close>

theorem update_title_resets_description_counterexample:
  "map_option (\<lambda>t. map_of (r_dict t) ''description'') (thread_at demo_world 0) =
     Some (Some (PStr ''cached description'')) \<and>
   fst (LiveThreadContribution_update demo_server 1 (PStr ''T'') PNone PNone PNone [] demo_world) = Inr () \<and>
   map_option (\<lambda>t. map_of (r_dict t) ''description'')
     (thread_at (snd (LiveThreadContribution_update demo_server 1 (PStr ''T'') PNone PNone PNone []
        demo_world)) 0) = Some None"
  by (simp add: LiveThreadContribution_update_def dict_update_def demo_world_def demo_server_def
      contribution_at_def obj_at_def thread_at_def LiveThread_getattr_def RedditBase_getattr_def LiveThread_info_path_def LiveThread_init_def
      RedditBase_init_def object_setattr_def alloc_def send_def heap_put_def API_PATH_format_def
      reset_attributes_def Let_def)

section \<open>Equality and hashing\<close>

lemma RedditBase_str_init:
  assumes "LiveThread_init r (PStr X) None w = (Inr a, w')"
  shows "\<exists>s. thread_at w' a = Some s \<and> RedditBase_str s = Inr X"
  using assms
  by (auto simp: LiveThread_init_def Let_def alloc_def thread_at_def obj_at_def
      RedditBase_init_def object_setattr_def RedditBase_str_def split: if_splits)

lemma Thread_str:
  assumes "Thread r X w = Some s"
  shows "RedditBase_str s = Inr X"
proof -
  from assms obtain a w' where i: "LiveThread_init r (PStr X) None w = (Inr a, w')"
    and h: "thread_at w' a = Some s"
    by (auto simp: Thread_def split: prod.splits sum.splits)
  from RedditBase_str_init[OF i] h show ?thesis by simp
qed

lemma LiveThread_eq_iff:
  assumes "RedditBase_str s = Inr X"
  shows "LiveThread_eq s other = Inr True \<longleftrightarrow>
          other = OpStr X \<or> (\<exists>t. other = OpObj (OThread t) \<and> RedditBase_str t = Inr X)"
  using assms
  by (auto simp: LiveThread_eq_def split: operand.splits obj.splits sum.splits)

lemma Thread_exists: "X \<noteq> [] \<Longrightarrow> \<exists>s. Thread r X w = Some s"
  by (simp add: Thread_def LiveThread_init_def Let_def alloc_def thread_at_def obj_at_def)

lemma xor_eq_right_iff: "(a XOR b = b) = (a = 0)" for a b :: int
proof
  assume "a XOR b = b"
  then have "(a XOR b) XOR b = b XOR b" by simp
  then show "a = 0" by (simp add: xor.assoc)
qed simp

text \<open>
  C3, as the source has it. The empty string builds no thread. For every other id string
  \<open>X\<close>, two threads built from \<open>X\<close> (whatever the \<^verbatim>\<open>Reddit\<close> instance and the state
  of the store) are equal, the thread equals the raw string \<open>X\<close>, and the two threads
  have the same hash, which combines the hashes of the class name and of \<open>X\<close>. The thread
  equals another value exactly when that value is the string \<open>X\<close> or a \<^verbatim>\<open>LiveThread\<close>
  whose string form is \<open>X\<close>. A \<^verbatim>\<open>LiveThread\<close> equal to it has the same hash; the raw
  string \<open>X\<close>, which is equal to it as well, has the same hash exactly when the hash of
  the class name is 0.
\<close>

theorem LiveThread_eq_hash:
  assumes "X \<noteq> []"
  shows "Thread r1 [] w1 = None \<and>
         (\<exists>s t. Thread r1 X w1 = Some s \<and> Thread r2 X w2 = Some t \<and>
         LiveThread_eq s (OpObj (OThread t)) = Inr True \<and>
         LiveThread_eq s (OpStr X) = Inr True \<and>
         LiveThread_hash hash s = LiveThread_hash hash t \<and>
         LiveThread_hash hash s = Inr (hash ''LiveThread'' XOR hash X) \<and>
         (\<forall>other. LiveThread_eq s other = Inr True \<longleftrightarrow>
            other = OpStr X \<or> (\<exists>t'. other = OpObj (OThread t') \<and> RedditBase_str t' = Inr X)) \<and>
         (\<forall>t'. LiveThread_eq s (OpObj (OThread t')) = Inr True \<longrightarrow>
            LiveThread_hash hash s = LiveThread_hash hash t') \<and>
         (LiveThread_hash hash s = Inr (hash X) \<longleftrightarrow> hash ''LiveThread'' = 0))"
proof -
  have none: "Thread r1 [] w1 = None"
    by (simp add: Thread_def LiveThread_init_def)
  from assms obtain s where as: "Thread r1 X w1 = Some s" using Thread_exists by blast
  from assms obtain t where at: "Thread r2 X w2 = Some t" using Thread_exists by blast
  note s = Thread_str[OF as] and t = Thread_str[OF at]
  have e1: "LiveThread_eq s (OpObj (OThread t)) = Inr True"
    using LiveThread_eq_iff[OF s] t by simp
  have e2: "LiveThread_eq s (OpStr X) = Inr True"
    using LiveThread_eq_iff[OF s] by simp
  have h1: "LiveThread_hash hash s = Inr (hash ''LiveThread'' XOR hash X)"
    using s by (simp add: LiveThread_hash_def)
  have h2: "LiveThread_hash hash t = Inr (hash ''LiveThread'' XOR hash X)"
    using t by (simp add: LiveThread_hash_def)
  have h3: "LiveThread_hash hash s = LiveThread_hash hash t'"
    if "LiveThread_eq s (OpObj (OThread t')) = Inr True" for t'
  proof -
    from that LiveThread_eq_iff[OF s] have "RedditBase_str t' = Inr X" by simp
    then show ?thesis using h1 by (simp add: LiveThread_hash_def)
  qed
  have h4: "LiveThread_hash hash s = Inr (hash X) \<longleftrightarrow> hash ''LiveThread'' = 0"
    unfolding h1 by (simp add: xor_eq_right_iff)
  have "\<exists>s t. Thread r1 X w1 = Some s \<and> Thread r2 X w2 = Some t \<and>
         LiveThread_eq s (OpObj (OThread t)) = Inr True \<and>
         LiveThread_eq s (OpStr X) = Inr True \<and>
         LiveThread_hash hash s = LiveThread_hash hash t \<and>
         LiveThread_hash hash s = Inr (hash ''LiveThread'' XOR hash X) \<and>
         (\<forall>other. LiveThread_eq s other = Inr True \<longleftrightarrow>
            other = OpStr X \<or> (\<exists>t'. other = OpObj (OThread t') \<and> RedditBase_str t' = Inr X)) \<and>
         (\<forall>t'. LiveThread_eq s (OpObj (OThread t')) = Inr True \<longrightarrow>
            LiveThread_hash hash s = LiveThread_hash hash t') \<and>
         (LiveThread_hash hash s = Inr (hash X) \<longleftrightarrow> hash ''LiveThread'' = 0)"
    using as at e1 e2 h1 h2 h3 h4 LiveThread_eq_iff[OF s]
    by (intro exI[of _ s] exI[of _ t]) simp
  with none show ?thesis by blast
qed

theorem LiveThread_eq_hash_witness:
  "Thread 0 ''ukaeu1ik4sw5'' \<lparr>heap = [], net = []\<rparr> =
     Some \<lparr>r_reddit = 0, r_dict = [(''id'', PStr ''ukaeu1ik4sw5'')], r_fetched = False,
           t_contrib = None, t_contributor = None\<rparr> \<and>
   LiveThread_eq \<lparr>r_reddit = 0, r_dict = [(''id'', PStr ''ukaeu1ik4sw5'')], r_fetched = False,
           t_contrib = None, t_contributor = None\<rparr> (OpStr ''ukaeu1ik4sw5'') = Inr True \<and>
   LiveThread_hash (\<lambda>s. int (length s))
     \<lparr>r_reddit = 0, r_dict = [(''id'', PStr ''ukaeu1ik4sw5'')], r_fetched = False,
      t_contrib = None, t_contributor = None\<rparr> = Inr (10 XOR 12)"
proof -
  have h: "Thread 0 ''ukaeu1ik4sw5'' \<lparr>heap = [], net = []\<rparr> =
     Some \<lparr>r_reddit = 0, r_dict = [(''id'', PStr ''ukaeu1ik4sw5'')], r_fetched = False,
           t_contrib = None, t_contributor = None\<rparr>"
    by (simp add: Thread_def LiveThread_init_def RedditBase_init_def object_setattr_def alloc_def
        thread_at_def obj_at_def)
  have n: "''ukaeu1ik4sw5'' \<noteq> []" by simp
  from LiveThread_eq_hash
         [OF n, of 0 "\<lparr>heap = [], net = []\<rparr>" 0 "\<lparr>heap = [], net = []\<rparr>" "\<lambda>s. int (length s)"] h
  show ?thesis by auto
qed

text \<open>
  C3, as the spec has it, fails twice. The empty id string builds no thread. And with a
  hash of strings that does not send the class name to 0, here the length of the string,
  a thread is equal to the raw string of its id and does not have the hash of that
  string.
\<close>

theorem LiveThread_hash_string_counterexample:
  "Thread 0 [] \<lparr>heap = [], net = []\<rparr> = None \<and>
   Thread 0 ''ukaeu1ik4sw5'' \<lparr>heap = [], net = []\<rparr> =
     Some \<lparr>r_reddit = 0, r_dict = [(''id'', PStr ''ukaeu1ik4sw5'')], r_fetched = False,
           t_contrib = None, t_contributor = None\<rparr> \<and>
   LiveThread_eq \<lparr>r_reddit = 0, r_dict = [(''id'', PStr ''ukaeu1ik4sw5'')], r_fetched = False,
           t_contrib = None, t_contributor = None\<rparr> (OpStr ''ukaeu1ik4sw5'') = Inr True \<and>
   LiveThread_hash (\<lambda>s. int (length s))
     \<lparr>r_reddit = 0, r_dict = [(''id'', PStr ''ukaeu1ik4sw5'')], r_fetched = False,
      t_contrib = None, t_contributor = None\<rparr> \<noteq> Inr (int (length ''ukaeu1ik4sw5''))"
  by (simp add: Thread_def LiveThread_init_def RedditBase_init_def object_setattr_def alloc_def
      thread_at_def obj_at_def LiveThread_eq_def LiveThread_hash_def RedditBase_str_def
      xor_eq_right_iff)

section \<open>Keeping the helpers\<close>

lemma thread_at_alloc:
  "thread_at (snd (alloc ob w)) a =
     (if a = length (heap w) then (case ob of OThread t \<Rightarrow> Some t | _ \<Rightarrow> None)
      else thread_at w a)"
  by (auto simp: thread_at_def obj_at_def alloc_def nth_append)

lemma thread_at_put_any:
  "thread_at (heap_put a ob w) b =
     (if a = b \<and> a < length (heap w) then (case ob of OThread t \<Rightarrow> Some t | _ \<Rightarrow> None)
      else thread_at w b)"
  by (auto simp: thread_at_def obj_at_def heap_put_def)

lemma kept_refl: "helpers_kept self w w"
  by (simp add: helpers_kept_def split: option.splits)

lemma kept_trans:
  "helpers_kept self w0 w1 \<Longrightarrow> helpers_kept self w1 w2 \<Longrightarrow> helpers_kept self w0 w2"
  by (auto simp: helpers_kept_def split: option.splits)

lemma kept_same_threads:
  "thread_at w' self = thread_at w self \<Longrightarrow> helpers_kept self w0 w \<Longrightarrow> helpers_kept self w0 w'"
  by (auto simp: helpers_kept_def split: option.splits)

lemma kept_alloc: "helpers_kept self w0 w \<Longrightarrow> helpers_kept self w0 (snd (alloc ob w))"
proof (cases "thread_at w self")
  case None
  then show "helpers_kept self w0 w \<Longrightarrow> ?thesis"
    by (auto simp: helpers_kept_def split: option.splits)
next
  case (Some t)
  then have "self < length (heap w)" using thread_at_length by blast
  then have "thread_at (snd (alloc ob w)) self = thread_at w self"
    by (simp add: thread_at_alloc)
  then show "helpers_kept self w0 w \<Longrightarrow> ?thesis" by (rule kept_same_threads)
qed

lemma kept_send: "helpers_kept self w0 w \<Longrightarrow> helpers_kept self w0 (send req w)"
  by (rule kept_same_threads) simp

lemma kept_put_thread:
  assumes "thread_at w a = Some t" and "t_contrib t' = t_contrib t"
    and "t_contributor t' = t_contributor t" and "helpers_kept self w0 w"
  shows "helpers_kept self w0 (heap_put a (OThread t') w)"
proof (rule kept_trans[OF assms(4)])
  from assms(1) have "a < length (heap w)" using thread_at_length by blast
  with assms(1-3) show "helpers_kept self w (heap_put a (OThread t') w)"
    by (auto simp: helpers_kept_def thread_at_put_any split: option.splits)
qed

lemma update_at_send [simp]: "update_at (send req w) a = update_at w a"
  by (simp add: update_at_def obj_at_def send_def)

lemma kept_put_update:
  assumes "update_at w a = Some u" and "helpers_kept self w0 w"
  shows "helpers_kept self w0 (heap_put a (OUpdate u') w)"
proof (rule kept_same_threads[OF _ assms(2)])
  from assms(1) have "thread_at w a = None"
    by (auto simp: thread_at_def update_at_def obj_at_def split: if_splits option.splits obj.splits)
  then show "thread_at (heap_put a (OUpdate u') w) self = thread_at w self"
    by (auto simp: thread_at_put_any)
qed

lemma kept_allocE:
  "alloc ob w = (a, w') \<Longrightarrow> helpers_kept self w0 w \<Longrightarrow> helpers_kept self w0 w'"
  using kept_alloc[of self w0 w ob] by simp

lemma kept_getattr:
  "helpers_kept self w0 w \<Longrightarrow> helpers_kept self w0 (snd (LiveThread_getattr T x k w))"
  unfolding LiveThread_getattr_def RedditBase_getattr_def
  by (auto simp: Let_def intro!: kept_send kept_put_thread split: option.splits sum.splits)

lemma kept_getattrE:
  "LiveThread_getattr T x k w = (r, w') \<Longrightarrow> helpers_kept self w0 w \<Longrightarrow> helpers_kept self w0 w'"
  using kept_getattr[of self w0 w T x k] by simp

lemma kept_resolve:
  "helpers_kept self w0 w \<Longrightarrow> helpers_kept self w0 (snd (LiveUpdate_resolve T x k w))"
  unfolding LiveUpdate_resolve_def RedditBase_getattr_def
  by (auto simp: Let_def intro!: kept_send kept_put_update[where u="the (update_at w x)"]
      split: option.splits sum.splits)

lemma kept_resolveE:
  "LiveUpdate_resolve T x k w = (r, w') \<Longrightarrow> helpers_kept self w0 w \<Longrightarrow> helpers_kept self w0 w'"
  using kept_resolve[of self w0 w T x k] by simp

lemma kept_thread_init:
  "helpers_kept self w0 w \<Longrightarrow> helpers_kept self w0 (snd (LiveThread_init r i d w))"
  by (auto simp: LiveThread_init_def Let_def split: prod.splits intro: kept_allocE)

lemma kept_thread_initE:
  "LiveThread_init r i d w = (res, w') \<Longrightarrow> helpers_kept self w0 w \<Longrightarrow> helpers_kept self w0 w'"
  using kept_thread_init[of self w0 w r i d] by simp

lemma kept_update_init:
  "helpers_kept self w0 w \<Longrightarrow> helpers_kept self w0 (snd (LiveUpdate_init r ti ui d w))"
  unfolding LiveUpdate_init_def Let_def
  by (auto split: prod.splits sum.splits intro: kept_allocE kept_thread_initE)

lemma kept_update_initE:
  "LiveUpdate_init r ti ui d w = (res, w') \<Longrightarrow> helpers_kept self w0 w \<Longrightarrow> helpers_kept self w0 w'"
  using kept_update_init[of self w0 w r ti ui d] by simp

lemma kept_getitem:
  "helpers_kept self w0 w \<Longrightarrow> helpers_kept self w0 (snd (LiveThread_getitem T x uid w))"
  unfolding LiveThread_getitem_def
  by (auto split: option.splits prod.splits sum.splits intro: kept_update_init kept_getattrE)

lemma kept_merge_settings:
  "helpers_kept self w0 w \<Longrightarrow> helpers_kept self w0 (snd (merge_settings T x settings w))"
proof (induction settings arbitrary: w)
  case Nil
  then show ?case by simp
next
  case (Cons p settings)
  obtain k v where p: "p = (k, v)" by (cases p)
  obtain r w1 where g: "(if v = PNone then LiveThread_getattr T x k w else (Inr v, w)) = (r, w1)"
    by (cases "if v = PNone then LiveThread_getattr T x k w else (Inr v, w)")
  then have k1: "helpers_kept self w0 w1"
    using Cons.prems by (auto split: if_splits intro: kept_getattrE)
  from Cons.IH[OF k1] have "helpers_kept self w0 (snd (merge_settings T x settings w1))" .
  with g k1 p show ?case
    by (cases r; cases "merge_settings T x settings w1")
      (auto simp del: merge_settings.simps simp: merge_settings.simps(2)[of T x k v settings w]
        split: sum.splits)
qed

lemma kept_merge_settingsE:
  "merge_settings T x settings w = (r, w') \<Longrightarrow> helpers_kept self w0 w \<Longrightarrow> helpers_kept self w0 w'"
  using kept_merge_settings[of self w0 w T x settings] by simp

lemma kept_reset:
  assumes "thread_at w a = Some t" and "helpers_kept self w0 w"
  shows "helpers_kept self w0 (heap_put a (OThread (reset_attributes names t)) w)"
  using assms(1) _ _ assms(2) by (rule kept_put_thread) (simp_all add: reset_attributes_def)

lemma kept_contribution_update:
  assumes k: "helpers_kept self w0 w"
  shows "helpers_kept self w0
     (snd (LiveThreadContribution_update T x title description nsfw resources extras w))"
proof -
  let ?settings = "dict_update [(''title'', title), (''description'', description),
                      (''nsfw'', nsfw), (''resources'', resources)] extras"
  show ?thesis
  proof (cases "list_all (\<lambda>(k, v). v = PNone) ?settings")
    case True
    with k show ?thesis by (simp add: LiveThreadContribution_update_def)
  next
    case False
    note nall = False
    show ?thesis
    proof (cases "contribution_at w x")
      case None
      with k nall show ?thesis by (simp add: LiveThreadContribution_update_def)
    next
      case (Some owner)
      note own = Some
      show ?thesis
      proof (cases "thread_at w owner")
        case None
        with k nall own show ?thesis by (simp add: LiveThreadContribution_update_def)
      next
        case (Some t)
        note t = Some
        obtain r1 w1 where g1: "LiveThread_getattr T owner ''id'' w = (r1, w1)"
          by (cases "LiveThread_getattr T owner ''id'' w")
        have k1: "helpers_kept self w0 w1" using g1 k by (rule kept_getattrE)
        show ?thesis
        proof (cases r1)
          case (Inl e)
          with k1 g1 nall own t show ?thesis by (simp add: LiveThreadContribution_update_def)
        next
          case (Inr i)
          note r1 = Inr
          obtain r2 w2 where g2: "LiveThread_init (r_reddit t) i None w1 = (r2, w2)"
            by (cases "LiveThread_init (r_reddit t) i None w1")
          have k2: "helpers_kept self w0 w2" using g2 k1 by (rule kept_thread_initE)
          show ?thesis
          proof (cases r2)
            case (Inl e)
            with k2 g2 g1 r1 nall own t show ?thesis
              by (simp add: LiveThreadContribution_update_def)
          next
            case (Inr thread)
            note r2 = Inr
            obtain r3 w3 where g3: "merge_settings T thread ?settings w2 = (r3, w3)"
              by (cases "merge_settings T thread ?settings w2")
            have k3: "helpers_kept self w0 w3" using g3 k2 by (rule kept_merge_settingsE)
            show ?thesis
            proof (cases r3)
              case (Inl e)
              with k3 g3 g2 r2 g1 r1 nall own t show ?thesis
                by (simp add: LiveThreadContribution_update_def)
            next
              case (Inr data)
              note r3 = Inr
              obtain r4 w4 where g4: "LiveThread_getattr T owner ''id'' w3 = (r4, w4)"
                by (cases "LiveThread_getattr T owner ''id'' w3")
              have k4: "helpers_kept self w0 w4" using g4 k3 by (rule kept_getattrE)
              show ?thesis
              proof (cases r4)
                case (Inl e)
                with k4 g4 g3 r3 g2 r2 g1 r1 nall own t show ?thesis
                  by (simp add: LiveThreadContribution_update_def)
              next
                case (Inr j)
                let ?req = "POST (r_reddit t) (API_PATH_format ''live_update_thread'' j) (Some data)"
                have k5: "helpers_kept self w0 (send ?req w4)" using k4 by (rule kept_send)
                have k6: "helpers_kept self w0
                    (heap_put owner (OThread (reset_attributes (map fst data) t')) (send ?req w4))"
                  if "thread_at (send ?req w4) owner = Some t'" for t'
                  using that k5 by (rule kept_reset)
                from k5 k6 g4 Inr g3 r3 g2 r2 g1 r1 nall own t show ?thesis
                  by (simp add: LiveThreadContribution_update_def Let_def
                      split: option.splits)
              qed
            qed
          qed
        qed
      qed
    qed
  qed
qed

lemma kept_post_permissions:
  assumes k: "helpers_kept self w0 w"
  shows "helpers_kept self w0 (snd (post_permissions T order key type x redditor permissions w))"
proof (cases "contributor_at w x")
  case None
  with k show ?thesis by (simp add: post_permissions_def)
next
  case (Some thread)
  obtain r1 w1 where g1: "LiveThread_getattr T thread ''id'' w = (r1, w1)"
    by (cases "LiveThread_getattr T thread ''id'' w")
  have k1: "helpers_kept self w0 w1" using g1 k by (rule kept_getattrE)
  have k2: "helpers_kept self w0 (send req w1)" for req using k1 by (rule kept_send)
  from k1 k2 g1 Some show ?thesis
    by (cases r1) (simp_all add: post_permissions_def Let_def split: option.splits)
qed

lemma kept_stamp: "helpers_kept self w0 w \<Longrightarrow> helpers_kept self w0 (stamp x a w)"
  by (auto simp: stamp_def split: option.splits intro: kept_put_update)

lemma kept_yield_batch:
  "helpers_kept self w0 w \<Longrightarrow> helpers_kept self w0 (snd (yield_batch x r items w))"
proof (induction items arbitrary: w)
  case Nil
  then show ?case by simp
next
  case (Cons item items)
  obtain res w1 where d: "ListingGenerator_decode r item w = (res, w1)"
    by (cases "ListingGenerator_decode r item w")
  then have k1: "helpers_kept self w0 w1"
    using Cons.prems unfolding ListingGenerator_decode_def by (rule kept_update_initE)
  show ?case
  proof (cases res)
    case (Inl e)
    with d k1 show ?thesis by simp
  next
    case (Inr u)
    from k1 have "helpers_kept self w0 (stamp x u w1)" by (rule kept_stamp)
    from Cons.IH[OF this] d Inr show ?thesis
      by (cases "yield_batch x r items (stamp x u w1)") (auto simp: Let_def)
  qed
qed

lemma kept_yield_batchE:
  "yield_batch x r items w = (res, w') \<Longrightarrow> helpers_kept self w0 w \<Longrightarrow> helpers_kept self w0 w'"
  using kept_yield_batch[of self w0 w x r items] by simp

lemma kept_updates_pages:
  "helpers_kept self w0 w \<Longrightarrow> updates_pages T fuel x r url after limit w = Some (res, w') \<Longrightarrow>
   helpers_kept self w0 w'"
proof (induction fuel arbitrary: w after limit res w')
  case 0
  then show ?case by simp
next
  case (Suc fuel)
  note k = Suc.prems(1)
  show ?case
  proof (cases "limit = Some 0")
    case True
    with Suc.prems show ?thesis by simp
  next
    case False
    let ?req = "GET r url after"
    have k1: "helpers_kept self w0 (send ?req w)" using k by (rule kept_send)
    show ?thesis
    proof (cases "get_listing T (net w) ?req")
      case (Inl e)
      with Suc.prems(2) False k1 show ?thesis
        by (simp add: ListingGenerator_next_batch_def)
    next
      case (Inr page)
      obtain children after' where page: "page = (children, after')" by (cases page)
      let ?batch = "case limit of None \<Rightarrow> children | Some k \<Rightarrow> take k children"
      let ?limit' = "map_option (\<lambda>k. k - length ?batch) limit"
      obtain ys err w2 where y: "yield_batch x r ?batch (send ?req w) = ((ys, err), w2)"
        by (cases "yield_batch x r ?batch (send ?req w)") auto
      have k2: "helpers_kept self w0 w2" using y k1 by (rule kept_yield_batchE)
      show ?thesis
      proof (cases err)
        case (Some e)
        with Suc.prems(2) False Inr page y k2 show ?thesis
          by (simp add: ListingGenerator_next_batch_def Let_def)
      next
        case None
        show ?thesis
        proof (cases "after' = None \<or> ?limit' = Some 0")
          case True
          with Suc.prems(2) False Inr page y None k2 show ?thesis
            by (simp add: ListingGenerator_next_batch_def Let_def)
        next
          case stop: False
          with Suc.prems(2) False Inr page y None
          obtain res' where "updates_pages T fuel x r url after' ?limit' w2 = Some (res', w')"
            by (auto simp: ListingGenerator_next_batch_def Let_def split: option.splits)
          with k2 show ?thesis by (rule Suc.IH)
        qed
      qed
    qed
  qed
qed

lemma kept_updates:
  assumes k: "helpers_kept self w0 w"
    and u: "LiveThread_updates T fuel x limit w = Some (res, w')"
  shows "helpers_kept self w0 w'"
proof (cases "thread_at w x")
  case None
  with k u show ?thesis by (simp add: LiveThread_updates_def)
next
  case (Some t)
  obtain r1 w1 where g1: "LiveThread_getattr T x ''id'' w = (r1, w1)"
    by (cases "LiveThread_getattr T x ''id'' w")
  have k1: "helpers_kept self w0 w1" using g1 k by (rule kept_getattrE)
  show ?thesis
  proof (cases r1)
    case (Inl e)
    with u Some g1 k1 show ?thesis by (simp add: LiveThread_updates_def)
  next
    case (Inr i)
    with u Some g1 have "updates_pages T fuel x (r_reddit t)
        (API_PATH_format ''live_updates'' i) None limit w1 = Some (res, w')"
      by (simp add: LiveThread_updates_def)
    with k1 show ?thesis by (rule kept_updates_pages)
  qed
qed

lemma kept_contrib:
  "helpers_kept self w0 w \<Longrightarrow> helpers_kept self w0 (snd (LiveThread_contrib x w))"
proof (cases "thread_at w x")
  case None
  then show "helpers_kept self w0 w \<Longrightarrow> ?thesis" by (simp add: LiveThread_contrib_def)
next
  case (Some t)
  assume k: "helpers_kept self w0 w"
  show ?thesis
  proof (cases "t_contrib t")
    case (Some c)
    with \<open>thread_at w x = Some t\<close> k show ?thesis by (simp add: LiveThread_contrib_def)
  next
    case None
    let ?w1 = "snd (alloc (OLiveThreadContribution x) w)"
    let ?t' = "t\<lparr>t_contrib := Some (length (heap w))\<rparr>"
    have e: "snd (LiveThread_contrib x w) = heap_put x (OThread ?t') ?w1"
      using \<open>thread_at w x = Some t\<close> None by (simp add: LiveThread_contrib_def alloc_def)
    from \<open>thread_at w x = Some t\<close> have lt: "x < length (heap w)" using thread_at_length by blast
    then have t1: "thread_at ?w1 x = Some t"
      using \<open>thread_at w x = Some t\<close> by (simp add: thread_at_alloc)
    have lt1: "x < length (heap ?w1)" using lt by (simp add: alloc_def)
    have "helpers_kept self w (heap_put x (OThread ?t') ?w1)"
    proof (cases "self = x")
      case True
      with None \<open>thread_at w x = Some t\<close> lt1 show ?thesis
        by (simp add: helpers_kept_def thread_at_put_any)
    next
      case False
      have "thread_at (heap_put x (OThread ?t') ?w1) self = thread_at ?w1 self"
        using False by (simp add: thread_at_put_any)
      then have "helpers_kept self w (heap_put x (OThread ?t') ?w1)"
        using kept_alloc[OF kept_refl] by (rule kept_same_threads)
      then show ?thesis .
    qed
    with k show ?thesis unfolding e by (rule kept_trans)
  qed
qed

lemma kept_contributor:
  "helpers_kept self w0 w \<Longrightarrow> helpers_kept self w0 (snd (LiveThread_contributor x w))"
proof (cases "thread_at w x")
  case None
  then show "helpers_kept self w0 w \<Longrightarrow> ?thesis" by (simp add: LiveThread_contributor_def)
next
  case (Some t)
  assume k: "helpers_kept self w0 w"
  show ?thesis
  proof (cases "t_contributor t")
    case (Some c)
    with \<open>thread_at w x = Some t\<close> k show ?thesis by (simp add: LiveThread_contributor_def)
  next
    case None
    let ?w1 = "snd (alloc (OLiveContributorRelationship x) w)"
    let ?t' = "t\<lparr>t_contributor := Some (length (heap w))\<rparr>"
    have e: "snd (LiveThread_contributor x w) = heap_put x (OThread ?t') ?w1"
      using \<open>thread_at w x = Some t\<close> None by (simp add: LiveThread_contributor_def alloc_def)
    from \<open>thread_at w x = Some t\<close> have lt: "x < length (heap w)" using thread_at_length by blast
    have lt1: "x < length (heap ?w1)" using lt by (simp add: alloc_def)
    have "helpers_kept self w (heap_put x (OThread ?t') ?w1)"
    proof (cases "self = x")
      case True
      with None \<open>thread_at w x = Some t\<close> lt1 show ?thesis
        by (simp add: helpers_kept_def thread_at_put_any)
    next
      case False
      have "thread_at (heap_put x (OThread ?t') ?w1) self = thread_at ?w1 self"
        using False by (simp add: thread_at_put_any)
      then have "helpers_kept self w (heap_put x (OThread ?t') ?w1)"
        using kept_alloc[OF kept_refl] by (rule kept_same_threads)
      then show ?thesis .
    qed
    with k show ?thesis unfolding e by (rule kept_trans)
  qed
qed

lemma kept_new_contrib:
  "helpers_kept self w0 w \<Longrightarrow> helpers_kept self w0 (snd (LiveUpdate_new_contrib x w))"
proof (cases "update_at w x")
  case None
  then show "helpers_kept self w0 w \<Longrightarrow> ?thesis" by (simp add: LiveUpdate_new_contrib_def)
next
  case (Some u)
  assume k: "helpers_kept self w0 w"
  let ?w1 = "snd (alloc (OLiveUpdateContribution x) w)"
  have u1: "update_at ?w1 x = Some u"
    using Some by (auto simp: update_at_def obj_at_def alloc_def nth_append split: if_splits)
  have "helpers_kept self w0 ?w1" using k by (rule kept_alloc)
  with u1 have "helpers_kept self w0
      (heap_put x (OUpdate (u\<lparr>u_contrib := Some (Some (length (heap w)))\<rparr>)) ?w1)"
    by (rule kept_put_update)
  then show ?thesis using Some by (simp add: LiveUpdate_new_contrib_def alloc_def)
qed

lemma kept_update_thread:
  assumes k: "helpers_kept self w0 w"
  shows "helpers_kept self w0 (snd (LiveUpdate_thread T x w))"
proof -
  obtain r1 w1 where g: "LiveUpdate_resolve T x ''_thread'' w = (r1, w1)"
    by (cases "LiveUpdate_resolve T x ''_thread'' w")
  have "helpers_kept self w0 w1" using g k by (rule kept_resolveE)
  with k g show ?thesis
    by (cases r1) (simp_all add: LiveUpdate_thread_def split: option.splits)
qed

lemma kept_update_contrib:
  assumes k: "helpers_kept self w0 w"
  shows "helpers_kept self w0 (snd (LiveUpdate_contrib T x w))"
proof -
  obtain r1 w1 where g: "LiveUpdate_resolve T x ''_contrib'' w = (r1, w1)"
    by (cases "LiveUpdate_resolve T x ''_contrib'' w")
  have k1: "helpers_kept self w0 w1" using g k by (rule kept_resolveE)
  have k2: "helpers_kept self w0 (snd (LiveUpdate_new_contrib x w1))"
    using k1 by (rule kept_new_contrib)
  have k3: "helpers_kept self w0 (snd (LiveUpdate_new_contrib x w))"
    using k by (rule kept_new_contrib)
  from k k1 k2 k3 g show ?thesis
    by (cases r1) (simp_all add: LiveUpdate_contrib_def split: option.splits)
qed

lemma kept_update_getattr:
  assumes k: "helpers_kept self w0 w"
  shows "helpers_kept self w0 (snd (LiveUpdate_getattr T x k' w))"
proof -
  obtain r1 w1 where g: "LiveUpdate_resolve T x k' w = (r1, w1)"
    by (cases "LiveUpdate_resolve T x k' w")
  have k1: "helpers_kept self w0 w1" using g k by (rule kept_resolveE)
  from k1 g kept_update_thread[OF k] kept_update_contrib[OF k] show ?thesis
    by (cases r1) (simp_all add: LiveUpdate_getattr_def)
qed

lemma kept_perform: "helpers_kept self w0 w \<Longrightarrow> helpers_kept self w0 (perform T order op w)"
proof (cases op)
  case (Updates fuel x limit)
  assume k: "helpers_kept self w0 w"
  show ?thesis
  proof (cases "LiveThread_updates T fuel x limit w")
    case None
    with k Updates show ?thesis by simp
  next
    case (Some rw)
    obtain r w' where "rw = (r, w')" by (cases rw)
    with Some k Updates kept_updates[OF k, of T fuel x limit r w'] show ?thesis by simp
  qed
qed (simp_all add: kept_getattr kept_getitem kept_contribution_update kept_post_permissions
      kept_contrib kept_contributor kept_thread_init kept_update_init kept_update_getattr
      LiveContributorRelationship_invite_def LiveContributorRelationship_update_def)

lemma kept_perform_all:
  "helpers_kept self w0 w \<Longrightarrow> helpers_kept self w0 (perform_all T order ops w)"
  unfolding perform_all_def
  by (induction ops arbitrary: w) (simp_all add: kept_perform)

lemma contrib_kept:
  assumes "thread_at w self = Some t" and "t_contrib t = Some c" and "helpers_kept self w w'"
  shows "LiveThread_contrib self w' = (Inr c, w')"
  using assms by (auto simp: helpers_kept_def LiveThread_contrib_def split: option.splits)

lemma contributor_kept:
  assumes "thread_at w self = Some t" and "t_contributor t = Some d" and "helpers_kept self w w'"
  shows "LiveThread_contributor self w' = (Inr d, w')"
  using assms by (auto simp: helpers_kept_def LiveThread_contributor_def split: option.splits)

lemma contrib_sets_slot:
  assumes "thread_at w self = Some t"
  shows "\<exists>c w1 t1. LiveThread_contrib self w = (Inr c, w1) \<and> thread_at w1 self = Some t1 \<and>
           t_contrib t1 = Some c \<and> t_contributor t1 = t_contributor t \<and>
           (t_contrib t = None \<longrightarrow>
              obj_at w c = None \<and> obj_at w1 c = Some (OLiveThreadContribution self))"
proof -
  from assms have lt: "self < length (heap w)" and hw: "heap w ! self = OThread t"
    using thread_at_length by auto
  show ?thesis
    using assms lt hw
    by (cases "t_contrib t")
      (simp_all add: LiveThread_contrib_def thread_at_def obj_at_def heap_put_def alloc_def
        nth_append Let_def)
qed

lemma contributor_sets_slot:
  assumes "thread_at w self = Some t"
  shows "\<exists>d w1 t1. LiveThread_contributor self w = (Inr d, w1) \<and> thread_at w1 self = Some t1 \<and>
           t_contributor t1 = Some d \<and> t_contrib t1 = t_contrib t \<and>
           (t_contributor t = None \<longrightarrow>
              obj_at w d = None \<and> obj_at w1 d = Some (OLiveContributorRelationship self))"
proof -
  from assms have lt: "self < length (heap w)" and hw: "heap w ! self = OThread t"
    using thread_at_length by auto
  show ?thesis
    using assms lt hw
    by (cases "t_contributor t")
      (simp_all add: LiveThread_contributor_def thread_at_def obj_at_def heap_put_def alloc_def
        nth_append Let_def)
qed

text \<open>
  C9. On every thread, the property \<^verbatim>\<open>contrib\<close> returns a reference \<open>c\<close>, and the next
  access returns the same reference \<open>c\<close> and changes nothing; likewise \<^verbatim>\<open>contributor\<close>
  and its reference \<open>d\<close>; an access to one property does not disturb the other. Where the
  slot was empty, the helper did not exist before the first access and is, after it, a
  helper object that refers back to the thread. From then on, after any program of
  operations (attribute access with its fetch, item access, the updates listing, the
  update of the settings with its reset, invitations, permissions, the constructors, the
  properties themselves, on this thread or on any other object), \<^verbatim>\<open>contrib\<close> still
  returns \<open>c\<close> and \<^verbatim>\<open>contributor\<close> still returns \<open>d\<close>, and changes nothing: every
  operation keeps a slot that holds a helper.
\<close>

theorem helpers_memoized:
  assumes "thread_at w self = Some t"
  shows "\<exists>c w1 d w2.
           LiveThread_contrib self w = (Inr c, w1) \<and>
           LiveThread_contrib self w1 = (Inr c, w1) \<and>
           LiveThread_contributor self w1 = (Inr d, w2) \<and>
           LiveThread_contributor self w2 = (Inr d, w2) \<and>
           LiveThread_contrib self w2 = (Inr c, w2) \<and>
           (t_contrib t = None \<longrightarrow>
              obj_at w c = None \<and> obj_at w1 c = Some (OLiveThreadContribution self)) \<and>
           (t_contributor t = None \<longrightarrow>
              obj_at w1 d = None \<and> obj_at w2 d = Some (OLiveContributorRelationship self)) \<and>
           (\<forall>ops. LiveThread_contrib self (perform_all T order ops w2) =
                     (Inr c, perform_all T order ops w2) \<and>
                  LiveThread_contributor self (perform_all T order ops w2) =
                     (Inr d, perform_all T order ops w2)) \<and>
           (\<forall>op w'. helpers_kept self w' (perform T order op w'))"
proof -
  from contrib_sets_slot[OF assms] obtain c w1 t1 where
    1: "LiveThread_contrib self w = (Inr c, w1)" and t1: "thread_at w1 self = Some t1"
    and c1: "t_contrib t1 = Some c" and d1: "t_contributor t1 = t_contributor t"
    and n1: "t_contrib t = None \<longrightarrow>
              obj_at w c = None \<and> obj_at w1 c = Some (OLiveThreadContribution self)"
    by (elim exE conjE) auto
  from contributor_sets_slot[OF t1] obtain d w2 t2 where
    2: "LiveThread_contributor self w1 = (Inr d, w2)" and t2: "thread_at w2 self = Some t2"
    and d2: "t_contributor t2 = Some d" and c2: "t_contrib t2 = t_contrib t1"
    and n2: "t_contributor t1 = None \<longrightarrow>
              obj_at w1 d = None \<and> obj_at w2 d = Some (OLiveContributorRelationship self)"
    by (elim exE conjE) auto
  have a: "LiveThread_contrib self w1 = (Inr c, w1)"
    using t1 c1 kept_refl by (rule contrib_kept)
  have b: "LiveThread_contributor self w2 = (Inr d, w2)"
    using t2 d2 kept_refl by (rule contributor_kept)
  have c: "LiveThread_contrib self w2 = (Inr c, w2)"
    using t2 _ kept_refl by (rule contrib_kept) (simp add: c2 c1)
  have life: "LiveThread_contrib self (perform_all T order ops w2) =
                     (Inr c, perform_all T order ops w2) \<and>
              LiveThread_contributor self (perform_all T order ops w2) =
                     (Inr d, perform_all T order ops w2)" for ops
  proof -
    have k: "helpers_kept self w2 (perform_all T order ops w2)"
      using kept_refl by (rule kept_perform_all)
    have "t_contrib t2 = Some c" by (simp add: c2 c1)
    from contrib_kept[OF t2 this k] contributor_kept[OF t2 d2 k] show ?thesis by simp
  qed
  have step: "\<forall>op w'. helpers_kept self w' (perform T order op w')"
    using kept_perform[OF kept_refl] by blast
  from 1 a 2 b c n1 n2 d1 life step show ?thesis
    by (intro exI[of _ c] exI[of _ w1] exI[of _ d] exI[of _ w2]) simp
qed

theorem helpers_memoized_witness:
  "LiveThread_contrib 0 \<lparr>heap = [OThread \<lparr>r_reddit = 0, r_dict = [(''id'', PStr ''ukaeu1ik4sw5'')],
                       r_fetched = False, t_contrib = None, t_contributor = None\<rparr>], net = []\<rparr> =
    (Inr 1, \<lparr>heap = [OThread \<lparr>r_reddit = 0, r_dict = [(''id'', PStr ''ukaeu1ik4sw5'')],
                       r_fetched = False, t_contrib = Some 1, t_contributor = None\<rparr>,
                      OLiveThreadContribution 0], net = []\<rparr>) \<and>
   LiveThread_contrib 0 \<lparr>heap = [OThread \<lparr>r_reddit = 0, r_dict = [(''id'', PStr ''ukaeu1ik4sw5'')],
                       r_fetched = False, t_contrib = Some 1, t_contributor = None\<rparr>,
                      OLiveThreadContribution 0], net = []\<rparr> =
    (Inr 1, \<lparr>heap = [OThread \<lparr>r_reddit = 0, r_dict = [(''id'', PStr ''ukaeu1ik4sw5'')],
                       r_fetched = False, t_contrib = Some 1, t_contributor = None\<rparr>,
                      OLiveThreadContribution 0], net = []\<rparr>)"
proof -
  let ?t = "\<lparr>r_reddit = 0, r_dict = [(''id'', PStr ''ukaeu1ik4sw5'')],
                       r_fetched = False, t_contrib = None, t_contributor = None\<rparr>"
  let ?w = "\<lparr>heap = [OThread ?t], net = []\<rparr>"
  have h: "thread_at ?w 0 = Some ?t" by (simp add: thread_at_def obj_at_def)
  have e: "LiveThread_contrib 0 ?w =
    (Inr 1, \<lparr>heap = [OThread (?t\<lparr>t_contrib := Some 1\<rparr>), OLiveThreadContribution 0], net = []\<rparr>)"
    by (simp add: LiveThread_contrib_def thread_at_def obj_at_def alloc_def heap_put_def)
  from helpers_memoized[OF h, of demo_server remdups] e show ?thesis by auto
qed

section \<open>The author, on every path\<close>

lemma stamp_update:
  assumes "update_at w a = Some u"
  shows "update_at (stamp self a w) a = Some (u\<lparr>u_thread := Some self\<rparr>)"
proof -
  from assms have "a < length (heap w)"
    by (auto simp: update_at_def obj_at_def split: if_splits)
  with assms show ?thesis
    by (simp add: stamp_def update_at_def obj_at_def heap_put_def)
qed

lemma resolve_fetched:
  assumes "update_at w a = Some u" and "r_fetched u"
  shows "snd (LiveUpdate_resolve T a k w) = w"
  using assms by (simp add: LiveUpdate_resolve_def RedditBase_getattr_def split: option.splits)

lemma new_contrib_update:
  assumes "update_at w a = Some u"
  shows "update_at (snd (LiveUpdate_new_contrib a w)) a =
           Some (u\<lparr>u_contrib := Some (Some (length (heap w)))\<rparr>)"
proof -
  from assms have "a < length (heap w)"
    by (auto simp: update_at_def obj_at_def split: if_splits)
  with assms show ?thesis
    by (simp add: LiveUpdate_new_contrib_def alloc_def update_at_def obj_at_def heap_put_def
        nth_append)
qed

lemma getattr_keeps_dict:
  assumes u: "update_at w a = Some u" and f: "r_fetched u"
  shows "\<exists>u'. update_at (snd (LiveUpdate_getattr T a attribute w)) a = Some u' \<and>
           r_dict u' = r_dict u \<and> r_fetched u'"
proof -
  note same = resolve_fetched[OF u f]
  have keep: "\<exists>u'. update_at w a = Some u' \<and> r_dict u' = r_dict u \<and> r_fetched u'"
    using u f by simp
  have new: "\<exists>u'. update_at (snd (LiveUpdate_new_contrib a w)) a = Some u' \<and>
        r_dict u' = r_dict u \<and> r_fetched u'"
    using new_contrib_update[OF u] f by simp
  have th: "snd (LiveUpdate_thread T a w) = w"
  proof -
    obtain r1 w1 where g: "LiveUpdate_resolve T a ''_thread'' w = (r1, w1)"
      by (cases "LiveUpdate_resolve T a ''_thread'' w")
    with same[of T "''_thread''"] have "w1 = w" by simp
    with g u show ?thesis
      by (cases r1) (simp_all add: LiveUpdate_thread_def split: option.splits)
  qed
  have co: "snd (LiveUpdate_contrib T a w) = w \<or>
            snd (LiveUpdate_contrib T a w) = snd (LiveUpdate_new_contrib a w)"
  proof -
    obtain r1 w1 where g: "LiveUpdate_resolve T a ''_contrib'' w = (r1, w1)"
      by (cases "LiveUpdate_resolve T a ''_contrib'' w")
    with same[of T "''_contrib''"] have "w1 = w" by simp
    with g u show ?thesis
      by (cases r1) (auto simp: LiveUpdate_contrib_def split: option.splits)
  qed
  have ot: "snd (case LiveUpdate_resolve T a attribute w of
                   (Inl e, w1) \<Rightarrow> (Inl e, w1)
                 | (Inr v, w1) \<Rightarrow> (Inr (Value v), w1)) = w"
    using same[of T attribute]
    by (cases "LiveUpdate_resolve T a attribute w"; cases "fst (LiveUpdate_resolve T a attribute w)")
      auto
  show ?thesis
    unfolding LiveUpdate_getattr_def
    using keep new th co ot by (auto simp del: ex_simps)
qed

text \<open>
  C7. The values assigned to \<^verbatim>\<open>author\<close> are raw strings. On every update and for every
  string, assigning the attribute \<^verbatim>\<open>author\<close> stores the \<^verbatim>\<open>Redditor\<close> reference built
  from the string, never the string itself, and the reference displays as the string
  (\<^verbatim>\<open>"spez"\<close> for \<^verbatim>\<open>"spez"\<close>). Every assignment, to any attribute, keeps the invariant that
  a stored author is such a reference; every update that a constructor returns, from ids
  or from a payload whose author is a string, satisfies it and is marked as fetched; an
  update built from a payload with an author holds the reference built from the
  payload's string. The other operations on an update keep the invariant and the mark:
  reading an attribute, the properties \<^verbatim>\<open>thread\<close> and \<^verbatim>\<open>contrib\<close> among them, and
  stamping the update with its thread.
\<close>

theorem author_always_objectified:
  "map_of (r_dict (LiveUpdate_setattr u ''author'' (PStr s))) ''author'' =
     Some (PRedditor (r_reddit u) (PStr s)) \<and>
   map_of (r_dict (LiveUpdate_setattr u ''author'' (PStr s))) ''author'' \<noteq> Some (PStr s) \<and>
   py_str (PRedditor (r_reddit u) (PStr s)) = s \<and>
   py_str (PRedditor (r_reddit u) (PStr ''spez'')) = ''spez'' \<and>
   (author_objectified u \<and> (attribute = ''author'' \<longrightarrow> (\<exists>s'. x = PStr s')) \<longrightarrow>
      author_objectified (LiveUpdate_setattr u attribute x)) \<and>
   ((\<forall>d y. data = Some d \<and> (''author'', y) \<in> set d \<longrightarrow> (\<exists>s'. y = PStr s')) \<and>
    LiveUpdate_init reddit ti ui data w = (Inr a, w') \<longrightarrow>
      (\<exists>new. update_at w' a = Some new \<and> author_objectified new \<and> r_fetched new)) \<and>
   (distinct (map fst d) \<and> map_of d ''author'' = Some (PStr s) \<longrightarrow>
      (\<exists>b w'' new. LiveUpdate_init reddit ti ui (Some d) w = (Inr b, w'') \<and>
          update_at w'' b = Some new \<and>
          map_of (r_dict new) ''author'' = Some (PRedditor reddit (PStr s)))) \<and>
   (update_at w a = Some u \<and> author_objectified u \<and> r_fetched u \<longrightarrow>
      (\<exists>read. update_at (snd (LiveUpdate_getattr T a attribute w)) a = Some read \<and>
         author_objectified read \<and> r_fetched read)) \<and>
   (update_at w a = Some u \<and> author_objectified u \<and> r_fetched u \<longrightarrow>
      (\<exists>stamped. update_at (stamp self a w) a = Some stamped \<and>
         author_objectified stamped \<and> r_fetched stamped))"
proof (intro conjI impI)
  show "map_of (r_dict (LiveUpdate_setattr u ''author'' (PStr s))) ''author'' =
     Some (PRedditor (r_reddit u) (PStr s))"
    by (simp add: map_of_LiveUpdate_setattr)
  then show "map_of (r_dict (LiveUpdate_setattr u ''author'' (PStr s))) ''author'' \<noteq> Some (PStr s)"
    by simp
  show "py_str (PRedditor (r_reddit u) (PStr s)) = s" by simp
  show "py_str (PRedditor (r_reddit u) (PStr ''spez'')) = ''spez''" by simp
  show "author_objectified (LiveUpdate_setattr u attribute x)"
    if "author_objectified u \<and> (attribute = ''author'' \<longrightarrow> (\<exists>s'. x = PStr s'))"
    using that by (simp add: author_objectified_setattr)
  show "\<exists>new. update_at w' a = Some new \<and> author_objectified new \<and> r_fetched new"
    if h: "(\<forall>d y. data = Some d \<and> (''author'', y) \<in> set d \<longrightarrow> (\<exists>s'. y = PStr s')) \<and>
        LiveUpdate_init reddit ti ui data w = (Inr a, w')"
  proof -
    from h LiveUpdate_init_objectified obtain new where
      n: "update_at w' a = Some new" "author_objectified new" by blast
    from h n(1) have "r_fetched new"
      by (cases data)
        (auto simp: LiveUpdate_init_def LiveThread_init_def alloc_def Let_def update_at_def
          obj_at_def nth_append split: if_splits prod.splits)
    with n show ?thesis by blast
  qed
  show "\<exists>b w'' new. LiveUpdate_init reddit ti ui (Some d) w = (Inr b, w'') \<and>
          update_at w'' b = Some new \<and>
          map_of (r_dict new) ''author'' = Some (PRedditor reddit (PStr s))"
    if "distinct (map fst d) \<and> map_of d ''author'' = Some (PStr s)"
    using that foldl_setattr_lookup[of d "''author''" "PStr s"]
    by (simp add: LiveUpdate_init_payload update_at_alloc)
  show "\<exists>read. update_at (snd (LiveUpdate_getattr T a attribute w)) a = Some read \<and>
         author_objectified read \<and> r_fetched read"
    if h: "update_at w a = Some u \<and> author_objectified u \<and> r_fetched u"
  proof -
    from h getattr_keeps_dict[of w a u T attribute] obtain u' where
      "update_at (snd (LiveUpdate_getattr T a attribute w)) a = Some u'"
      "r_dict u' = r_dict u" "r_fetched u'" by blast
    with h show ?thesis by (auto simp: author_objectified_def)
  qed
  show "\<exists>stamped. update_at (stamp self a w) a = Some stamped \<and>
         author_objectified stamped \<and> r_fetched stamped"
    if "update_at w a = Some u \<and> author_objectified u \<and> r_fetched u"
    using that stamp_update[of w a u self] by (simp add: author_objectified_def)
qed


theorem author_always_objectified_witness:
  "map_of (r_dict (LiveUpdate_setattr
       \<lparr>r_reddit = 0, r_dict = [(''author'', PRedditor 0 (PStr ''kn0thing''))], r_fetched = True,
        u_thread = None, u_contrib = Some None\<rparr> ''author'' (PStr ''spez''))) ''author'' =
     Some (PRedditor 0 (PStr ''spez'')) \<and>
   author_objectified (LiveUpdate_setattr
       \<lparr>r_reddit = 0, r_dict = [(''author'', PRedditor 0 (PStr ''kn0thing''))], r_fetched = True,
        u_thread = None, u_contrib = Some None\<rparr> ''body'' (PStr ''hello'')) \<and>
   (\<exists>b w'' new. LiveUpdate_init 0 PNone PNone
          (Some [(''body'', PStr ''hello''), (''author'', PStr ''spez'')])
          \<lparr>heap = [], net = []\<rparr> = (Inr b, w'') \<and>
       update_at w'' b = Some new \<and>
       map_of (r_dict new) ''author'' = Some (PRedditor 0 (PStr ''spez''))) \<and>
   (\<exists>read. update_at (snd (LiveUpdate_getattr demo_server 0 ''contrib''
        \<lparr>heap = [OUpdate \<lparr>r_reddit = 0,
                          r_dict = [(''author'', PRedditor 0 (PStr ''kn0thing''))],
                          r_fetched = True, u_thread = None, u_contrib = Some None\<rparr>],
         net = []\<rparr>)) 0 = Some read \<and>
      author_objectified read \<and> r_fetched read)"
proof -
  let ?u = "\<lparr>r_reddit = 0, r_dict = [(''author'', PRedditor 0 (PStr ''kn0thing''))],
             r_fetched = True, u_thread = None, u_contrib = Some None\<rparr>"
  let ?w = "\<lparr>heap = [OUpdate ?u], net = []\<rparr>"
  let ?d = "[(''body'', PStr ''hello''), (''author'', PStr ''spez'')]"
  have h1: "author_objectified ?u" by (simp add: author_objectified_def)
  have h2: "distinct (map fst ?d) \<and> map_of ?d ''author'' = Some (PStr ''spez'')" by simp
  have h3: "update_at ?w 0 = Some ?u" by (simp add: update_at_def obj_at_def)
  have h4: "r_fetched ?u" by simp
  from author_always_objectified
         [where u = ?u and s = "''spez''" and attribute = "''body''" and x = "PStr ''hello''"
            and reddit = 0 and ti = PNone and ui = PNone and d = ?d
            and w = "\<lparr>heap = [], net = []\<rparr>"]
       author_always_objectified
         [where u = ?u and attribute = "''contrib''" and w = ?w and a = 0 and T = demo_server]
       h1 h2 h3 h4
  show ?thesis by simp
qed

section \<open>Item access on a thread\<close>







section \<open>The updates listing\<close>


lemma stamp_decode:
  "ListingGenerator_decode reddit item w = (Inr a, w1) \<Longrightarrow>
   a = length (heap w) \<and>
   stamp self a w1 =
     w\<lparr>heap := heap w @
        [OUpdate ((foldl (\<lambda>s (k, v). LiveUpdate_setattr s k v)
                   \<lparr>r_reddit = reddit, r_dict = [], r_fetched = False,
                    u_thread = None, u_contrib = None\<rparr> item)
                  \<lparr>r_fetched := True, u_thread := Some self\<rparr>)]\<rparr>"
  by (auto simp: ListingGenerator_decode_def LiveUpdate_init_payload stamp_def update_at_alloc
      heap_put_def)

lemma yield_batch_run:
  assumes "net w = N"
  shows "\<exists>ys. yield_batch self reddit items w =
      ((ys, None),
       w\<lparr>heap := heap w @
         map (\<lambda>item. OUpdate ((foldl (\<lambda>s (k, v). LiveUpdate_setattr s k v)
                   \<lparr>r_reddit = reddit, r_dict = [], r_fetched = False,
                    u_thread = None, u_contrib = None\<rparr> item)
                  \<lparr>r_fetched := True, u_thread := Some self\<rparr>)) items\<rparr>) \<and>
     map fst ys = [length (heap w) ..< length (heap w) + length items] \<and>
     list_all2 (\<lambda>item y.
        update_at (snd y) (fst y) =
          Some ((foldl (\<lambda>s (k, v). LiveUpdate_setattr s k v)
                   \<lparr>r_reddit = reddit, r_dict = [], r_fetched = False,
                    u_thread = None, u_contrib = None\<rparr> item)
                  \<lparr>r_fetched := True, u_thread := Some self\<rparr>) \<and>
        net (snd y) = N) items ys"
  using assms
proof (induction items arbitrary: w)
  case Nil
  then show ?case by simp
next
  case (Cons item items)
  let ?decU = "\<lambda>item. (foldl (\<lambda>s (k, v). LiveUpdate_setattr s k v)
                   \<lparr>r_reddit = reddit, r_dict = [], r_fetched = False,
                    u_thread = None, u_contrib = None\<rparr> item)
                  \<lparr>r_fetched := True, u_thread := Some self\<rparr>"
  let ?dec = "\<lambda>item. OUpdate (?decU item)"
  let ?P = "\<lambda>item y. update_at (snd y) (fst y) = Some (?decU item) \<and> net (snd y) = N"
  let ?n = "length (heap w)"
  let ?w2 = "w\<lparr>heap := heap w @ [?dec item]\<rparr>"
  obtain a w1 where d: "ListingGenerator_decode reddit item w = (Inr a, w1)"
    by (simp add: ListingGenerator_decode_def LiveUpdate_init_payload)
  from stamp_decode[OF d, of self] have a: "a = ?n"
    and s: "stamp self a w1 = ?w2"
    by blast+
  have "net ?w2 = N" using Cons.prems by simp
  from Cons.IH[OF this] obtain ys where
    y: "yield_batch self reddit items ?w2 =
          ((ys, None), ?w2\<lparr>heap := heap ?w2 @ map ?dec items\<rparr>)"
    and f: "map fst ys = [length (heap ?w2) ..< length (heap ?w2) + length items]"
    and p: "list_all2 ?P items ys"
    by blast
  have run: "yield_batch self reddit (item # items) w =
      (((?n, ?w2) # ys, None), w\<lparr>heap := heap w @ map ?dec (item # items)\<rparr>)"
    using d s a y by (simp add: Let_def)
  have e: "[?n ..< ?n + length (item # items)] = ?n # [Suc ?n ..< Suc ?n + length items]"
    by (subst upt_rec) (simp del: upt_Suc)
  have fs: "map fst ((?n, ?w2) # ys) = [?n ..< ?n + length (item # items)]"
    unfolding e using f by simp
  have hd: "?P item (?n, ?w2)"
    using Cons.prems by (simp add: update_at_def obj_at_def)
  from run fs hd p show ?case
    by (intro exI[of _ "(?n, ?w2) # ys"]) (simp del: upt_Suc)
qed


lemma thread_of_stamped:
  assumes "update_at wy a = Some u" and "u_thread u = Some self"
  shows "LiveUpdate_getattr T a ''thread'' wy = (Inr (Object self), wy)"
  using assms by (simp add: LiveUpdate_getattr_def LiveUpdate_thread_def)

lemma list_all2_list_all:
  "list_all2 P xs ys \<Longrightarrow> (\<And>x y. P x y \<Longrightarrow> Q y) \<Longrightarrow> list_all Q ys"
  by (induction rule: list_all2_induct) auto

lemma updates_two_pages_run:
  assumes "thread_at w self = Some t"
    and "map_of (r_dict t) ''id'' = Some i"
    and "get_listing T (net w) (GET (r_reddit t) (''live_updates'', py_str i) None) =
           Inr (page1, Some tok)"
    and "get_listing T (net w @ [GET (r_reddit t) (''live_updates'', py_str i) None])
           (GET (r_reddit t) (''live_updates'', py_str i) (Some tok)) = Inr (page2, None)"
  shows "\<exists>ys1 ys2.
     LiveThread_updates T (Suc (Suc m)) self None w =
       Some ((ys1 @ ys2, None),
           \<lparr>heap = heap w @
              map (\<lambda>item. OUpdate ((foldl (\<lambda>s (k, v). LiveUpdate_setattr s k v)
                   \<lparr>r_reddit = r_reddit t, r_dict = [], r_fetched = False,
                    u_thread = None, u_contrib = None\<rparr> item)
                  \<lparr>r_fetched := True, u_thread := Some self\<rparr>)) (page1 @ page2),
            net = net w @ [GET (r_reddit t) (''live_updates'', py_str i) None,
                           GET (r_reddit t) (''live_updates'', py_str i) (Some tok)]\<rparr>) \<and>
     map fst (ys1 @ ys2) = [length (heap w) ..< length (heap w) + length (page1 @ page2)] \<and>
     list_all2 (\<lambda>item y.
        update_at (snd y) (fst y) =
          Some ((foldl (\<lambda>s (k, v). LiveUpdate_setattr s k v)
                   \<lparr>r_reddit = r_reddit t, r_dict = [], r_fetched = False,
                    u_thread = None, u_contrib = None\<rparr> item)
                  \<lparr>r_fetched := True, u_thread := Some self\<rparr>) \<and>
        net (snd y) = net w @ [GET (r_reddit t) (''live_updates'', py_str i) None]) page1 ys1 \<and>
     list_all2 (\<lambda>item y.
        update_at (snd y) (fst y) =
          Some ((foldl (\<lambda>s (k, v). LiveUpdate_setattr s k v)
                   \<lparr>r_reddit = r_reddit t, r_dict = [], r_fetched = False,
                    u_thread = None, u_contrib = None\<rparr> item)
                  \<lparr>r_fetched := True, u_thread := Some self\<rparr>) \<and>
        net (snd y) = net w @ [GET (r_reddit t) (''live_updates'', py_str i) None,
                               GET (r_reddit t) (''live_updates'', py_str i) (Some tok)])
        page2 ys2"
proof -
  let ?decU = "\<lambda>item. (foldl (\<lambda>s (k, v). LiveUpdate_setattr s k v)
                   \<lparr>r_reddit = r_reddit t, r_dict = [], r_fetched = False,
                    u_thread = None, u_contrib = None\<rparr> item)
                  \<lparr>r_fetched := True, u_thread := Some self\<rparr>"
  let ?dec = "\<lambda>item. OUpdate (?decU item)"
  let ?url = "(''live_updates'', py_str i)"
  let ?r1 = "GET (r_reddit t) ?url None"
  let ?r2 = "GET (r_reddit t) ?url (Some tok)"
  let ?w1 = "(send ?r1 w)\<lparr>heap := heap w @ map ?dec page1\<rparr>"
  let ?w' = "\<lparr>heap = heap w @ map ?dec (page1 @ page2), net = net w @ [?r1, ?r2]\<rparr>"
  let ?n = "length (heap w)"
  let ?P1 = "\<lambda>item y. update_at (snd y) (fst y) = Some (?decU item) \<and> net (snd y) = net w @ [?r1]"
  let ?P2 = "\<lambda>item y. update_at (snd y) (fst y) = Some (?decU item) \<and>
                       net (snd y) = net w @ [?r1, ?r2]"
  have g: "LiveThread_getattr T self ''id'' w = (Inr i, w)"
    using assms(1,2) by (rule getattr_present)
  have n1: "net (send ?r1 w) = net w @ [?r1]" by simp
  have h1: "heap (send ?r1 w) = heap w" by simp
  have "\<exists>ys1. yield_batch self (r_reddit t) page1 (send ?r1 w) = ((ys1, None), ?w1) \<and>
      map fst ys1 = [?n ..< ?n + length page1] \<and> list_all2 ?P1 page1 ys1"
    using yield_batch_run[OF n1, of self "r_reddit t" page1] unfolding h1 .
  then obtain ys1 where
    y1: "yield_batch self (r_reddit t) page1 (send ?r1 w) = ((ys1, None), ?w1)"
    and f1: "map fst ys1 = [?n ..< ?n + length page1]"
    and p1: "list_all2 ?P1 page1 ys1"
    by blast
  have n2: "net (send ?r2 ?w1) = net w @ [?r1, ?r2]" by simp
  have h2: "heap (send ?r2 ?w1) = heap w @ map ?dec page1" by simp
  have e2: "(send ?r2 ?w1)\<lparr>heap := (heap w @ map ?dec page1) @ map ?dec page2\<rparr> = ?w'"
    by (simp add: send_def)
  have l2: "length (heap w @ map ?dec page1) = ?n + length page1" by simp
  have "\<exists>ys2. yield_batch self (r_reddit t) page2 (send ?r2 ?w1) = ((ys2, None), ?w') \<and>
      map fst ys2 = [?n + length page1 ..< ?n + length page1 + length page2] \<and>
      list_all2 ?P2 page2 ys2"
    using yield_batch_run[OF n2, of self "r_reddit t" page2] unfolding h2 e2 l2 .
  then obtain ys2 where
    y2: "yield_batch self (r_reddit t) page2 (send ?r2 ?w1) = ((ys2, None), ?w')"
    and f2: "map fst ys2 = [?n + length page1 ..< ?n + length page1 + length page2]"
    and p2: "list_all2 ?P2 page2 ys2"
    by blast
  have q2: "updates_pages T (Suc m) self (r_reddit t) ?url (Some tok) None ?w1 =
            Some ((ys2, None), ?w')"
    using assms(4) y2 by (simp add: ListingGenerator_next_batch_def)
  have q1: "updates_pages T (Suc (Suc m)) self (r_reddit t) ?url None None w =
            Some ((ys1 @ ys2, None), ?w')"
    apply (subst updates_pages.simps(2))
    using assms(3) y1 q2
    apply (simp add: ListingGenerator_next_batch_def del: updates_pages.simps)
    done
  have cat: "[?n ..< ?n + length page1] @ [?n + length page1 ..< ?n + length page1 + length page2]
              = [?n ..< ?n + length (page1 @ page2)]"
    using upt_add_eq_append[of ?n "?n + length page1" "length page2"] by (simp add: add.assoc)
  have run: "LiveThread_updates T (Suc (Suc m)) self None w = Some ((ys1 @ ys2, None), ?w')"
    using assms(1) g q1
    by (simp add: LiveThread_updates_def API_PATH_format_def del: updates_pages.simps)
  have fs: "map fst (ys1 @ ys2) = [?n ..< ?n + length (page1 @ page2)]"
    using f1 f2 cat by simp
  from run fs p1 p2 show ?thesis by blast
qed


text \<open>
  C6. On a thread that holds its id, over an endpoint that serves a page of 100 items with
  a continuation token and then a page of 37 items without one, the updates listing with
  \<^verbatim>\<open>limit=None\<close>, run with fuel for two page requests or more, comes to its end without
  an error. It yields 137 updates, each a new object, paired with the store as it is at
  the moment of that yield. The yield at position \<open>k\<close> is the update decoded from item \<open>k\<close>
  of the first page followed by the second, so the order is the server's and nothing is
  dropped or merged. In the store of its own yield, before any later item is decoded, the
  update is marked fetched and carries the requesting thread as its \<^verbatim>\<open>_thread\<close>, and
  reading its \<^verbatim>\<open>thread\<close> there answers the requesting thread with no request. At each of
  the first 100 yields one page request has been made, at each of the last 37 both; the
  requests made in the end are the two page requests; in the final store the yielded
  objects are as they were at their yields and the objects there were are untouched.
\<close>

theorem updates_two_pages:
  assumes "thread_at w self = Some t"
    and "map_of (r_dict t) ''id'' = Some i"
    and "get_listing T (net w) (GET (r_reddit t) (''live_updates'', py_str i) None) =
           Inr (page1, Some tok)"
    and "get_listing T (net w @ [GET (r_reddit t) (''live_updates'', py_str i) None])
           (GET (r_reddit t) (''live_updates'', py_str i) (Some tok)) = Inr (page2, None)"
    and "length page1 = 100" and "length page2 = 37"
    and "2 \<le> fuel"
  shows "\<exists>ys w'. LiveThread_updates T fuel self None w = Some ((ys, None), w') \<and>
          length ys = 137 \<and>
          map fst ys = [length (heap w) ..< length (heap w) + 137] \<and>
          list_all2 (\<lambda>item y.
             update_at (snd y) (fst y) =
               Some ((foldl (\<lambda>s (k, v). LiveUpdate_setattr s k v)
                   \<lparr>r_reddit = r_reddit t, r_dict = [], r_fetched = False,
                    u_thread = None, u_contrib = None\<rparr> item)
                  \<lparr>r_fetched := True, u_thread := Some self\<rparr>) \<and>
             LiveUpdate_getattr T (fst y) ''thread'' (snd y) = (Inr (Object self), snd y))
            (page1 @ page2) ys \<and>
          list_all (\<lambda>y. net (snd y) =
             net w @ [GET (r_reddit t) (''live_updates'', py_str i) None]) (take 100 ys) \<and>
          list_all (\<lambda>y. net (snd y) =
             net w @ [GET (r_reddit t) (''live_updates'', py_str i) None,
                      GET (r_reddit t) (''live_updates'', py_str i) (Some tok)]) (drop 100 ys) \<and>
          net w' = net w @ [GET (r_reddit t) (''live_updates'', py_str i) None,
                            GET (r_reddit t) (''live_updates'', py_str i) (Some tok)] \<and>
          map (update_at w') (map fst ys) =
            map (\<lambda>item. Some ((foldl (\<lambda>s (k, v). LiveUpdate_setattr s k v)
                   \<lparr>r_reddit = r_reddit t, r_dict = [], r_fetched = False,
                    u_thread = None, u_contrib = None\<rparr> item)
                  \<lparr>r_fetched := True, u_thread := Some self\<rparr>)) (page1 @ page2) \<and>
          (\<forall>x. obj_at w x \<noteq> None \<longrightarrow> obj_at w' x = obj_at w x)"
proof -
  let ?dec = "\<lambda>item. (foldl (\<lambda>s (k, v). LiveUpdate_setattr s k v)
                   \<lparr>r_reddit = r_reddit t, r_dict = [], r_fetched = False,
                    u_thread = None, u_contrib = None\<rparr> item)
                  \<lparr>r_fetched := True, u_thread := Some self\<rparr>"
  let ?r1 = "GET (r_reddit t) (''live_updates'', py_str i) None"
  let ?r2 = "GET (r_reddit t) (''live_updates'', py_str i) (Some tok)"
  let ?w' = "\<lparr>heap = heap w @ map (\<lambda>item. OUpdate (?dec item)) (page1 @ page2),
              net = net w @ [?r1, ?r2]\<rparr>"
  let ?n = "length (heap w)"
  let ?P1 = "\<lambda>item y. update_at (snd y) (fst y) = Some (?dec item) \<and> net (snd y) = net w @ [?r1]"
  let ?P2 = "\<lambda>item y. update_at (snd y) (fst y) = Some (?dec item) \<and>
                       net (snd y) = net w @ [?r1, ?r2]"
  let ?Q = "\<lambda>item y. update_at (snd y) (fst y) = Some (?dec item) \<and>
             LiveUpdate_getattr T (fst y) ''thread'' (snd y) = (Inr (Object self), snd y)"
  define N :: nat where "N = 137"
  define M :: nat where "M = 100"
  from assms(7) have fuel: "fuel = Suc (Suc (fuel - 2))" by simp
  have len: "length (page1 @ page2) = N" using assms(5,6) by (simp add: N_def)
  have len1: "length page1 = M" using assms(5) by (simp add: M_def)
  from updates_two_pages_run[OF assms(1-4), of "fuel - 2"] obtain ys1 ys2 where
    run0: "LiveThread_updates T (Suc (Suc (fuel - 2))) self None w = Some ((ys1 @ ys2, None), ?w')"
    and fs0: "map fst (ys1 @ ys2) = [?n ..< ?n + length (page1 @ page2)]"
    and p1: "list_all2 ?P1 page1 ys1"
    and p2: "list_all2 ?P2 page2 ys2"
    by blast
  define ys where "ys = ys1 @ ys2"
  have run: "LiveThread_updates T fuel self None w = Some ((ys, None), ?w')"
    using run0 fuel by (simp add: ys_def)
  have fs: "map fst ys = [?n ..< ?n + N]"
    using fs0 len by (simp only: ys_def)
  have l1: "length ys1 = M" using list_all2_lengthD[OF p1] len1 by simp
  have l2: "length ys2 = length page2" using list_all2_lengthD[OF p2] by simp
  have ly: "length ys = N" using l1 l2 len len1 by (simp add: ys_def)
  have q1: "list_all2 ?Q page1 ys1"
    using p1 by (rule list_all2_mono) (auto intro: thread_of_stamped)
  have q2: "list_all2 ?Q page2 ys2"
    using p2 by (rule list_all2_mono) (auto intro: thread_of_stamped)
  have q: "list_all2 ?Q (page1 @ page2) ys"
    unfolding ys_def using q1 q2 by (rule list_all2_appendI)
  have tk: "take M ys = ys1" and dr: "drop M ys = ys2"
    using l1 by (simp_all add: ys_def)
  have n1: "list_all (\<lambda>y. net (snd y) = net w @ [?r1]) (take M ys)"
    unfolding tk using p1 by (rule list_all2_list_all) simp
  have n2: "list_all (\<lambda>y. net (snd y) = net w @ [?r1, ?r2]) (drop M ys)"
    unfolding dr using p2 by (rule list_all2_list_all) simp
  have at: "update_at ?w' (?n + k) = Some (?dec ((page1 @ page2) ! k))" if "k < N" for k
    using that len by (simp add: update_at_def obj_at_def nth_append del: map_append)
  have objs: "map (update_at ?w') (map fst ys) = map (\<lambda>item. Some (?dec item)) (page1 @ page2)"
    unfolding fs using len at by (intro nth_equalityI) (simp_all del: map_append)
  have old: "\<forall>x. obj_at w x \<noteq> None \<longrightarrow> obj_at ?w' x = obj_at w x"
    by (auto simp: obj_at_def nth_append split: if_splits)
  have nw: "net ?w' = net w @ [?r1, ?r2]" by simp
  have "LiveThread_updates T fuel self None w = Some ((ys, None), ?w') \<and>
          length ys = N \<and>
          map fst ys = [?n ..< ?n + N] \<and>
          list_all2 ?Q (page1 @ page2) ys \<and>
          list_all (\<lambda>y. net (snd y) = net w @ [?r1]) (take M ys) \<and>
          list_all (\<lambda>y. net (snd y) = net w @ [?r1, ?r2]) (drop M ys) \<and>
          net ?w' = net w @ [?r1, ?r2] \<and>
          map (update_at ?w') (map fst ys) = map (\<lambda>item. Some (?dec item)) (page1 @ page2) \<and>
          (\<forall>x. obj_at w x \<noteq> None \<longrightarrow> obj_at ?w' x = obj_at w x)"
    using run ly fs q n1 n2 nw objs old by (intro conjI)
  then show ?thesis unfolding N_def M_def by (intro exI)
qed

theorem updates_two_pages_witness:
  "\<exists>ys w'. LiveThread_updates demo_server 2 0 None demo_world = Some ((ys, None), w') \<and>
         length ys = 137 \<and>
         map fst ys = [length (heap demo_world) ..< length (heap demo_world) + 137] \<and>
         list_all2 (\<lambda>item y.
             update_at (snd y) (fst y) =
               Some ((foldl (\<lambda>s (k, v). LiveUpdate_setattr s k v)
                   \<lparr>r_reddit = 0, r_dict = [], r_fetched = False,
                    u_thread = None, u_contrib = None\<rparr> item)
                  \<lparr>r_fetched := True, u_thread := Some 0\<rparr>) \<and>
             LiveUpdate_getattr demo_server (fst y) ''thread'' (snd y) = (Inr (Object 0), snd y))
            (replicate 100 [(''body'', PStr ''first page'')] @
             replicate 37 [(''body'', PStr ''second page'')]) ys \<and>
         list_all (\<lambda>y. net (snd y) =
             net demo_world @ [GET 0 (''live_updates'', ''xyu8kmjvfrww'') None]) (take 100 ys) \<and>
         list_all (\<lambda>y. net (snd y) =
             net demo_world @ [GET 0 (''live_updates'', ''xyu8kmjvfrww'') None,
                      GET 0 (''live_updates'', ''xyu8kmjvfrww'') (Some ''t1'')]) (drop 100 ys) \<and>
         net w' = net demo_world @
           [GET 0 (''live_updates'', ''xyu8kmjvfrww'') None,
            GET 0 (''live_updates'', ''xyu8kmjvfrww'') (Some ''t1'')]"
proof -
  let ?t = "\<lparr>r_reddit = 0,
             r_dict = [(''id'', PStr ''xyu8kmjvfrww''), (''title'', PStr ''old title''),
                       (''description'', PStr ''cached description'')],
             r_fetched = True, t_contrib = Some 1, t_contributor = None\<rparr>"
  let ?i = "PStr ''xyu8kmjvfrww''"
  let ?p1 = "replicate 100 [(''body'', PStr ''first page'')]"
  let ?p2 = "replicate 37 [(''body'', PStr ''second page'')]"
  have h1: "thread_at demo_world 0 = Some ?t"
    by (simp add: thread_at_def obj_at_def demo_world_def)
  have h2: "map_of (r_dict ?t) ''id'' = Some ?i" by simp
  have h3: "get_listing demo_server (net demo_world)
      (GET (r_reddit ?t) (''live_updates'', py_str ?i) None) = Inr (?p1, Some ''t1'')"
    by (simp add: demo_server_def)
  have h4: "get_listing demo_server
      (net demo_world @ [GET (r_reddit ?t) (''live_updates'', py_str ?i) None])
      (GET (r_reddit ?t) (''live_updates'', py_str ?i) (Some ''t1'')) = Inr (?p2, None)"
    by (simp add: demo_server_def)
  have h5: "length ?p1 = 100" by simp
  have h6: "length ?p2 = 37" by simp
  have h7: "(2::nat) \<le> 2" by simp
  have r: "r_reddit ?t = 0" "py_str ?i = ''xyu8kmjvfrww''" by simp_all
  from updates_two_pages[OF h1 h2 h3 h4 h5 h6 h7] show ?thesis
    unfolding r by blast
qed

end
